theory Spec2Isabelle
  imports Main "HOL-Library.AList" "HOL-Library.Char_ord" "HOL-Library.List_Lexorder" "HOL-Library.Option_ord"
    "HOL-Library.Product_Lexorder"
begin

section \<open>Data model\<close>

text \<open>
  A cell of a pandas DataFrame as \<^verbatim>\<open>server.py\<close> sees it. \<open>Null\<close> is the missing value
  (NaN, None, NaT: everything \<^verbatim>\<open>isnull\<close> answers True for), \<open>Str\<close> a Python string,
  \<open>Num\<close> a number of the column's numeric type \<open>'n\<close> (int64 or float64 in pandas; the
  development is polymorphic in it and only uses its \<open>*\<close>, \<open>+\<close>, \<open>0\<close> and order), and
  \<open>Dt\<close> a pandas Timestamp, kept as the text its \<^verbatim>\<open>isoformat()\<close> gives.
\<close>

datatype 'n cell = Null | Str string | Num 'n | Dt string

text \<open>
  A DataFrame: the column labels and the rows, each row one cell per label.
  \<^verbatim>\<open>len(df)\<close> is \<open>length (rows df)\<close>.
\<close>

record 'n dataframe =
  columns :: "string list"
  rows :: "'n cell list list"

definition wf_dataframe :: "'n dataframe \<Rightarrow> bool" where
  "wf_dataframe df = list_all (\<lambda>r. length r = length (columns df)) (rows df)"

section \<open>Formatting integers (f-strings)\<close>

definition digit_char :: "nat \<Rightarrow> char" where
  "digit_char d = ''0123456789'' ! d"

function str_nat :: "nat \<Rightarrow> string" where
  "str_nat n = (if n < 10 then [digit_char n] else str_nat (n div 10) @ [digit_char (n mod 10)])"
  by pat_completeness auto
termination
  by (relation "measure id") auto

declare str_nat.simps [simp del]

definition str_int :: "int \<Rightarrow> string" where
  "str_int i = (if i < 0 then CHR ''-'' # str_nat (nat (- i)) else str_nat (nat i))"

section \<open>The cleaner: \<^verbatim>\<open>clean_dataframe\<close>\<close>

text \<open>
  \<^verbatim>\<open>df.drop_duplicates()\<close> with its defaults: all columns are compared, the first
  occurrence of a row is kept (\<^verbatim>\<open>keep='first'\<close>), missing values compare equal to each
  other, and the order of the kept rows is unchanged. \<open>seen\<close> holds the rows met so far.
\<close>

fun drop_duplicates_from :: "'a list \<Rightarrow> 'a list \<Rightarrow> 'a list" where
  "drop_duplicates_from seen [] = []"
| "drop_duplicates_from seen (r # rs) =
     (if r \<in> set seen then drop_duplicates_from seen rs
      else r # drop_duplicates_from (r # seen) rs)"

definition drop_duplicates :: "'n dataframe \<Rightarrow> 'n dataframe" where
  "drop_duplicates df = df\<lparr>rows := drop_duplicates_from [] (rows df)\<rparr>"

text \<open>\<^verbatim>\<open>df.isnull().sum().sum()\<close>: the number of missing cells of the whole frame.\<close>

definition isnull_sum :: "'n dataframe \<Rightarrow> int" where
  "isnull_sum df = int (sum_list (map (\<lambda>r. length (filter (\<lambda>c. c = Null) r)) (rows df)))"

text \<open>\<^verbatim>\<open>df.dropna()\<close> with its defaults: a row with a missing cell in any column goes.\<close>

definition dropna :: "'n dataframe \<Rightarrow> 'n dataframe" where
  "dropna df = df\<lparr>rows := filter (\<lambda>r. Null \<notin> set r) (rows df)\<rparr>"

definition len :: "'n dataframe \<Rightarrow> int" where
  "len df = int (length (rows df))"

definition duplicate_message :: "int \<Rightarrow> string" where
  "duplicate_message n = ''Removed '' @ str_int n @ '' duplicate records''"

definition missing_message :: "int \<Rightarrow> string" where
  "missing_message n = ''Removed '' @ str_int n @ '' records with missing values''"

definition clean_dataframe :: "'n dataframe \<Rightarrow> 'n dataframe \<times> string list" where
  "clean_dataframe df =
     (let errors = [];
          original_count = len df;
          df1 = drop_duplicates df;
          duplicates_removed = original_count - len df1;
          errors1 = (if duplicates_removed > 0
                     then errors @ [duplicate_message duplicates_removed] else errors);
          missing_before = isnull_sum df1;
          df2 = dropna df1;
          missing_removed = missing_before - isnull_sum df2;
          errors2 = (if missing_removed > 0
                     then errors1 @ [missing_message (len df2)] else errors1)
      in (df2, errors2))"

text \<open>
  The cleaner with its two removals in the other order: the rows with a missing cell
  first, the duplicates second. It is not in the source; the claim about the order of the
  two removals compares \<open>clean_dataframe\<close> with it.
\<close>

definition clean_missing_first :: "'n dataframe \<Rightarrow> 'n dataframe \<times> string list" where
  "clean_missing_first df =
     (let errors = [];
          missing_before = isnull_sum df;
          df1 = dropna df;
          missing_removed = missing_before - isnull_sum df1;
          errors1 = (if missing_removed > 0
                     then errors @ [missing_message (len df1)] else errors);
          df2 = drop_duplicates df1;
          duplicates_removed = len df1 - len df2;
          errors2 = (if duplicates_removed > 0
                     then errors1 @ [duplicate_message duplicates_removed] else errors1)
      in (df2, errors2))"

text \<open>A frame has a missing cell somewhere.\<close>

definition has_null :: "'n dataframe \<Rightarrow> bool" where
  "has_null df = list_ex (\<lambda>r. Null \<in> set r) (rows df)"

section \<open>The schema stage: \<^verbatim>\<open>standardize_schema\<close>\<close>

text \<open>
  What the program takes from its libraries and its surroundings, as parameters:
  \<^item> \<open>read_csv\<close>: \<^verbatim>\<open>pd.read_csv(io.StringIO(content.decode('utf-8')))\<close>, the parsed frame or
    \<open>Inl\<close> the text of the exception the decoding or the parsing raised;
  \<^item> \<open>parse_number\<close>: the number \<^verbatim>\<open>pd.to_numeric\<close> reads from a string, if any;
  \<^item> \<open>parse_datetime\<close>: the Timestamp (as its \<^verbatim>\<open>isoformat()\<close>) that \<^verbatim>\<open>pd.to_datetime\<close>
    reads from a cell, if any;
  \<^item> \<open>insert_many_error\<close>: the text of the exception \<^verbatim>\<open>insert_many\<close> raises for these
    documents, if it raises (the driver refuses an empty list and a NaT it cannot encode,
    a connection may fail);
  \<^item> \<open>str_http_exception\<close>: \<^verbatim>\<open>str(e)\<close> of an \<^verbatim>\<open>HTTPException\<close> with this status and detail;
  \<^item> \<open>uuid4\<close> (the identifier drawn for the \<open>i\<close>-th record), \<open>log_uuid\<close>, \<open>now\<close> and
    \<open>elapsed\<close>: the identifiers and the clock;
  \<^item> \<open>date_from_string\<close>: the calendar day (year, month, day) of the date that the
    store's \<^verbatim>\<open>$dateFromString\<close> reads from a string, or \<open>Inl\<close> the text of its error.
\<close>

record 'n env =
  read_csv :: "string \<Rightarrow> string + 'n dataframe"
  parse_number :: "string \<Rightarrow> 'n option"
  parse_datetime :: "'n cell \<Rightarrow> string option"
  insert_many_error :: "(string \<times> 'n cell) list list \<Rightarrow> string option"
  str_http_exception :: "nat \<Rightarrow> string \<Rightarrow> string"
  uuid4 :: "nat \<Rightarrow> string"
  log_uuid :: string
  now :: string
  elapsed :: 'n
  date_from_string :: "string \<Rightarrow> string + (nat \<times> nat \<times> nat)"

text \<open>
  \<^verbatim>\<open>str.lower()\<close> on the ASCII letters. (A string is its bytes here; a label with a
  letter outside ASCII, which Python would lower too, is outside the model.)
\<close>

definition lower_char :: "char \<Rightarrow> char" where
  "lower_char c =
     (case map_of (zip ''ABCDEFGHIJKLMNOPQRSTUVWXYZ'' ''abcdefghijklmnopqrstuvwxyz'') c of
        Some l \<Rightarrow> l
      | None \<Rightarrow> c)"

text \<open>\<^verbatim>\<open>df.columns.str.lower().str.replace(' ', '').str.replace('_', '')\<close>, on one label.\<close>

definition normalize_name :: "string \<Rightarrow> string" where
  "normalize_name s =
     filter (\<lambda>c. c \<noteq> CHR ''_'') (filter (\<lambda>c. c \<noteq> CHR '' '') (map lower_char s))"

definition column_mappings :: "(string \<times> string) list" where
  "column_mappings =
     [(''invoiceno'', ''order_id''),
      (''invoice'', ''order_id''),
      (''orderid'', ''order_id''),
      (''stockcode'', ''product_id''),
      (''productid'', ''product_id''),
      (''sku'', ''product_id''),
      (''description'', ''product_name''),
      (''productname'', ''product_name''),
      (''product'', ''product_name''),
      (''quantity'', ''quantity''),
      (''qty'', ''quantity''),
      (''unitprice'', ''unit_price''),
      (''price'', ''unit_price''),
      (''customerid'', ''customer_id''),
      (''customer'', ''customer_id''),
      (''invoicedate'', ''order_date''),
      (''date'', ''order_date''),
      (''orderdate'', ''order_date''),
      (''country'', ''country'')]"

text \<open>\<^verbatim>\<open>df.rename(columns=column_mappings)\<close>, on one label: a label that is no key stays.\<close>

definition rename_column :: "string \<Rightarrow> string" where
  "rename_column c = (case map_of column_mappings c of Some v \<Rightarrow> v | None \<Rightarrow> c)"

definition required_columns :: "string list" where
  "required_columns = [''order_id'', ''product_id'', ''quantity'', ''unit_price'']"

text \<open>Python's \<^verbatim>\<open>repr\<close> of a list of strings that need no escaping.\<close>

fun join_comma :: "string list \<Rightarrow> string" where
  "join_comma [] = []"
| "join_comma [x] = x"
| "join_comma (x # y # ys) = x @ '', '' @ join_comma (y # ys)"

definition repr_list :: "string list \<Rightarrow> string" where
  "repr_list xs = ''['' @ join_comma (map (\<lambda>x. [CHR 0x27] @ x @ [CHR 0x27]) xs) @ '']''"

text \<open>
  \<^verbatim>\<open>df[c]\<close>: a KeyError when no column has the label, the column (a Series) when exactly
  one has it, and a DataFrame of all the columns with that label when several have it.
\<close>

datatype 'n selection = KeyError | Series "'n cell list" | Frame

definition cell_at :: "string list \<Rightarrow> 'n cell list \<Rightarrow> string \<Rightarrow> 'n cell" where
  "cell_at cols r c = (case map_of (zip cols r) c of Some v \<Rightarrow> v | None \<Rightarrow> Null)"

definition getitem :: "'n dataframe \<Rightarrow> string \<Rightarrow> 'n selection" where
  "getitem df c =
     (if count_list (columns df) c = 0 then KeyError
      else if count_list (columns df) c = 1
      then Series (map (\<lambda>r. cell_at (columns df) r c) (rows df))
      else Frame)"

text \<open>
  \<^verbatim>\<open>df[c] = series\<close>: the column with the label takes the values, row by row; a label the
  frame does not have yet becomes a new last column.
\<close>

definition setitem :: "'n dataframe \<Rightarrow> string \<Rightarrow> 'n cell list \<Rightarrow> 'n dataframe" where
  "setitem df c vals =
     (if c \<in> set (columns df)
      then df\<lparr>rows := map2 (\<lambda>r v. map2 (\<lambda>name x. if name = c then v else x) (columns df) r)
                          (rows df) vals\<rparr>
      else df\<lparr>columns := columns df @ [c], rows := map2 (\<lambda>r v. r @ [v]) (rows df) vals\<rparr>)"

text \<open>
  \<^verbatim>\<open>pd.to_numeric(series, errors='coerce')\<close>, on one cell: a number stays, a string is
  parsed, and what does not parse becomes the missing value. (A frame that comes from
  \<^verbatim>\<open>read_csv\<close> holds no Timestamp.)
\<close>

fun to_numeric :: "'n env \<Rightarrow> 'n cell \<Rightarrow> 'n cell" where
  "to_numeric e Null = Null"
| "to_numeric e (Num n) = Num n"
| "to_numeric e (Str s) = (case parse_number e s of Some n \<Rightarrow> Num n | None \<Rightarrow> Null)"
| "to_numeric e (Dt s) = Null"

text \<open>\<^verbatim>\<open>pd.to_datetime(series, errors='coerce')\<close>, on one cell.\<close>

definition to_datetime :: "'n env \<Rightarrow> 'n cell \<Rightarrow> 'n cell" where
  "to_datetime e c =
     (if c = Null then Null
      else case parse_datetime e c of Some ts \<Rightarrow> Dt ts | None \<Rightarrow> Null)"

text \<open>The product of two numeric cells; a missing factor (NaN) gives a missing product.\<close>

fun cell_mul :: "'n::times cell \<Rightarrow> 'n cell \<Rightarrow> 'n cell" where
  "cell_mul (Num a) (Num b) = Num (a * b)"
| "cell_mul _ _ = Null"

text \<open>The texts of the exceptions pandas raises when it is handed a DataFrame for a Series.\<close>

definition to_numeric_type_error :: string where
  "to_numeric_type_error = ''arg must be a list, tuple, 1-d array, or Series''"

definition to_datetime_value_error :: string where
  "to_datetime_value_error = ''cannot assemble with duplicate keys''"

definition key_error :: "string \<Rightarrow> string" where
  "key_error c = [CHR 0x27] @ c @ [CHR 0x27]"

text \<open>
  The body of the \<^verbatim>\<open>try\<close> of \<^verbatim>\<open>standardize_schema\<close>: the frame as the statements that ran
  left it, and the text of the exception if one was raised.
\<close>

definition convert_types :: "'n::times env \<Rightarrow> 'n dataframe \<Rightarrow> 'n dataframe \<times> string option" where
  "convert_types e df =
     (case getitem df ''quantity'' of
        KeyError \<Rightarrow> (df, Some (key_error ''quantity''))
      | Frame \<Rightarrow> (df, Some to_numeric_type_error)
      | Series q \<Rightarrow>
          let df1 = setitem df ''quantity'' (map (to_numeric e) q) in
          (case getitem df1 ''unit_price'' of
             KeyError \<Rightarrow> (df1, Some (key_error ''unit_price''))
           | Frame \<Rightarrow> (df1, Some to_numeric_type_error)
           | Series p \<Rightarrow>
               let df2 = setitem df1 ''unit_price'' (map (to_numeric e) p);
                   df3 = (if ''total_price'' \<notin> set (columns df2)
                          then setitem df2 ''total_price''
                                 (map (\<lambda>r. cell_mul (cell_at (columns df2) r ''quantity'')
                                                     (cell_at (columns df2) r ''unit_price''))
                                      (rows df2))
                          else df2)
               in (if ''order_date'' \<in> set (columns df3)
                   then (case getitem df3 ''order_date'' of
                           KeyError \<Rightarrow> (df3, Some (key_error ''order_date''))
                         | Frame \<Rightarrow> (df3, Some to_datetime_value_error)
                         | Series d \<Rightarrow>
                             (setitem df3 ''order_date'' (map (to_datetime e) d), None))
                   else (df3, None))))"

definition standardize_schema :: "'n::times env \<Rightarrow> 'n dataframe \<Rightarrow> 'n dataframe \<times> string list" where
  "standardize_schema e df =
     (let errors = [];
          df1 = df\<lparr>columns := map normalize_name (columns df)\<rparr>;
          df2 = df1\<lparr>columns := map rename_column (columns df1)\<rparr>;
          missing_columns = filter (\<lambda>col. col \<notin> set (columns df2)) required_columns
      in if missing_columns \<noteq> []
         then (df2, errors @ [''Missing required columns: '' @ repr_list missing_columns])
         else (case convert_types e df2 of
                 (df3, None) \<Rightarrow> (df3, errors)
               | (df3, Some msg) \<Rightarrow> (df3, errors @ [''Error converting data types: '' @ msg])))"

section \<open>The record store and \<^verbatim>\<open>store_processed_data\<close>\<close>

text \<open>
  A stored document is a Python dict: the keys in insertion order, each once.
  \<open>AList.update\<close> is \<^verbatim>\<open>record[k] = v\<close> and \<open>map_of\<close> the lookup.
\<close>

type_synonym 'n document = "(string \<times> 'n cell) list"

record 'n ProcessingLog =
  log_id :: string
  filename :: string
  status :: string
  records_processed :: int
  records_failed :: int
  errors :: "string list"
  timestamp :: string
  processing_time :: "'n option"

text \<open>The two collections of the database.\<close>

record 'n db =
  ecommerce_data :: "'n document list"
  processing_logs :: "'n ProcessingLog list"

datatype http_exception = HTTPException nat string

text \<open>
  One record of \<^verbatim>\<open>df.to_dict('records')\<close>: the labels paired with the cells of the row,
  a later column overwriting an earlier one with the same label.
\<close>

definition to_dict :: "string list \<Rightarrow> 'n cell list \<Rightarrow> 'n document" where
  "to_dict cols r = fold (\<lambda>(k, v) d. AList.update k v d) (zip cols r) []"

text \<open>
  The body of the loop over the records: the metadata, then the Timestamp of
  \<^verbatim>\<open>order_date\<close> (a value that is not missing and has \<^verbatim>\<open>isoformat\<close>) as its ISO text.
\<close>

definition add_metadata :: "'n env \<Rightarrow> string \<Rightarrow> nat \<Rightarrow> 'n document \<Rightarrow> 'n document" where
  "add_metadata e fname i d =
     (let d1 = AList.update ''_id'' (Str (uuid4 e i)) d;
          d2 = AList.update ''source_file'' (Str fname) d1;
          d3 = AList.update ''processed_at'' (Dt (now e)) d2
      in (case map_of d3 ''order_date'' of
            Some (Dt ts) \<Rightarrow> AList.update ''order_date'' (Str ts) d3
          | _ \<Rightarrow> d3))"

definition store_processed_data ::
  "'n env \<Rightarrow> 'n dataframe \<Rightarrow> string \<Rightarrow> 'n db \<Rightarrow> http_exception + (int \<times> 'n db)" where
  "store_processed_data e df fname store =
     (let records = map (to_dict (columns df)) (rows df);
          records1 = map (\<lambda>(i, d). add_metadata e fname i d) (enumerate 0 records)
      in (case insert_many_error e records1 of
            Some msg \<Rightarrow> Inl (HTTPException 500 (''Error storing data: '' @ msg))
          | None \<Rightarrow>
              Inr (int (length records1),
                   store\<lparr>ecommerce_data := ecommerce_data store @ records1\<rparr>)))"

section \<open>The upload: \<^verbatim>\<open>upload_file\<close>\<close>

text \<open>\<^verbatim>\<open>s.endswith(suffix)\<close>.\<close>

definition endswith :: "string \<Rightarrow> string \<Rightarrow> bool" where
  "endswith s suffix =
     (length suffix \<le> length s \<and> drop (length s - length suffix) s = suffix)"

record 'n upload_response =
  message :: string
  response_records_processed :: int
  response_records_failed :: int
  response_errors :: "string list"
  response_processing_time :: 'n

text \<open>
  The \<^verbatim>\<open>except\<close> branch of \<^verbatim>\<open>upload_file\<close>: the log entry is marked failed with the text of
  the exception as its only error, it is inserted, and a 500 is raised.
\<close>

definition upload_failed ::
  "'n env \<Rightarrow> 'n ProcessingLog \<Rightarrow> string \<Rightarrow> 'n db
     \<Rightarrow> (http_exception + 'n upload_response) \<times> 'n db" where
  "upload_failed e log_entry msg store =
     (let log_entry1 = log_entry\<lparr>status := ''failed'', errors := [msg],
                                  processing_time := Some (elapsed e)\<rparr>
      in (Inl (HTTPException 500 (''Error processing file: '' @ msg)),
          store\<lparr>processing_logs := processing_logs store @ [log_entry1]\<rparr>))"

definition upload_file ::
  "'n::times env \<Rightarrow> string \<Rightarrow> string \<Rightarrow> 'n db
     \<Rightarrow> (http_exception + 'n upload_response) \<times> 'n db" where
  "upload_file e fname content store =
     (if \<not> endswith fname ''.csv''
      then (Inl (HTTPException 400 ''Only CSV files are supported''), store)
      else
        let log_entry = \<lparr>log_id = log_uuid e, filename = fname, status = ''processing'',
                         records_processed = 0, records_failed = 0, errors = [],
                         timestamp = now e, processing_time = None\<rparr>
        in (case read_csv e content of
              Inl msg \<Rightarrow> upload_failed e log_entry msg store
            | Inr df \<Rightarrow>
                let original_count = len df;
                    (df1, cleaning_errors) = clean_dataframe df;
                    (df2, schema_errors) = standardize_schema e df1;
                    all_errors = cleaning_errors @ schema_errors
                in (case store_processed_data e df2 fname store of
                      Inl (HTTPException code detail) \<Rightarrow>
                        upload_failed e log_entry (str_http_exception e code detail) store
                    | Inr (records_stored, store1) \<Rightarrow>
                        let log_entry1 = log_entry\<lparr>status := ''completed'',
                              records_processed := records_stored,
                              records_failed := original_count - records_stored,
                              errors := all_errors,
                              processing_time := Some (elapsed e)\<rparr>
                        in (Inr \<lparr>message = ''File processed successfully'',
                                  response_records_processed = records_stored,
                                  response_records_failed = original_count - records_stored,
                                  response_errors = all_errors,
                                  response_processing_time = elapsed e\<rparr>,
                            store1\<lparr>processing_logs := processing_logs store1 @ [log_entry1]\<rparr>))))"

text \<open>\<^verbatim>\<open>clear_all_data\<close>: both collections are emptied.\<close>

definition clear_all_data :: "'n db \<Rightarrow> string \<times> 'n db" where
  "clear_all_data store =
     (''All data cleared successfully'',
      store\<lparr>ecommerce_data := [], processing_logs := []\<rparr>)"

section \<open>The analytics: \<^verbatim>\<open>get_analytics_overview\<close>\<close>

text \<open>
  The aggregation stages the pipelines use, as the store evaluates them on the stored
  documents. \<^verbatim>\<open>$sum\<close> adds the numbers of a field; a value that is no number (a string,
  a date, a missing field) is skipped, and a NaN makes the sum NaN.
\<close>

fun sum_step :: "'n::plus cell \<Rightarrow> 'n cell option \<Rightarrow> 'n cell" where
  "sum_step (Num a) (Some (Num x)) = Num (a + x)"
| "sum_step (Num a) (Some Null) = Null"
| "sum_step acc _ = acc"

definition mongo_sum :: "string \<Rightarrow> 'n::{zero,plus} document list \<Rightarrow> 'n cell" where
  "mongo_sum k ds = fold (\<lambda>d acc. sum_step acc (map_of d k)) ds (Num 0)"

text \<open>
  \<^verbatim>\<open>$group\<close>: the documents with the same key form one group. The store fixes no order
  of the groups; here they come in the order in which their keys first occur.
\<close>

fun group_by :: "('d \<Rightarrow> 'k) \<Rightarrow> 'd list \<Rightarrow> ('k \<times> 'd list) list" where
  "group_by key [] = []"
| "group_by key (d # ds) =
     (key d, d # filter (\<lambda>x. key x = key d) ds) #
     group_by key (filter (\<lambda>x. key x \<noteq> key d) ds)"

text \<open>
  \<^verbatim>\<open>$sort\<close> on a sum, descending. In the store's order of values NaN is below every
  number: \<open>rank\<close> maps it to \<open>None\<close>, which is below every \<open>Some\<close>.
\<close>

fun rank :: "'n cell \<Rightarrow> 'n option" where
  "rank (Num x) = Some x"
| "rank _ = None"

definition sort_desc :: "('a \<Rightarrow> 'k::linorder) \<Rightarrow> 'a list \<Rightarrow> 'a list" where
  "sort_desc f xs = rev (sort_key f xs)"

text \<open>The rows of the top-products pipeline: \<^verbatim>\<open>$group\<close>, \<^verbatim>\<open>$sort\<close>, \<^verbatim>\<open>$limit\<close>.\<close>

record 'n product_group =
  group_product_id :: "'n cell option"
  group_product_name :: "'n cell option"
  group_total_quantity :: "'n cell"
  group_total_revenue :: "'n cell"
  group_order_count :: int

definition product_key :: "'n document \<Rightarrow> 'n cell option \<times> 'n cell option" where
  "product_key d = (map_of d ''product_id'', map_of d ''product_name'')"

definition top_products_pipeline ::
  "'n::{zero,plus,linorder} document list \<Rightarrow> 'n product_group list" where
  "top_products_pipeline ds =
     take 5 (sort_desc (\<lambda>g. rank (group_total_revenue g))
       (map (\<lambda>(k, g). \<lparr>group_product_id = fst k, group_product_name = snd k,
                         group_total_quantity = mongo_sum ''quantity'' g,
                         group_total_revenue = mongo_sum ''total_price'' g,
                         group_order_count = int (length g)\<rparr>)
            (group_by product_key ds)))"

text \<open>
  The rows of the top-customers pipeline. The key is the field itself, so a document
  without the field is grouped under null.
\<close>

record 'n top_customer =
  customer_id :: "'n cell"
  total_spent :: "'n cell"
  customer_order_count :: int

definition customer_key :: "'n document \<Rightarrow> 'n cell" where
  "customer_key d = (case map_of d ''customer_id'' of None \<Rightarrow> Null | Some c \<Rightarrow> c)"

definition top_customers_pipeline ::
  "'n::{zero,plus,linorder} document list \<Rightarrow> 'n top_customer list" where
  "top_customers_pipeline ds =
     take 5 (sort_desc (\<lambda>g. rank (total_spent g))
       (map (\<lambda>(k, g). \<lparr>customer_id = k, total_spent = mongo_sum ''total_price'' g,
                         customer_order_count = int (length g)\<rparr>)
            (group_by customer_key ds)))"

text \<open>
  The key of the daily-revenue pipeline:
  \<^verbatim>\<open>$dateToString\<close> with the format \<^verbatim>\<open>%Y-%m-%d\<close> of \<^verbatim>\<open>$dateFromString\<close> of the field
  \<^verbatim>\<open>order_date\<close>. A null or missing field gives the key null; a value that is no string
  and a string that is no date are errors of the aggregation. The year is written with
  four digits, month and day with two, padded with zeros; a year beyond 9999 is an error.
\<close>

fun pad :: "nat \<Rightarrow> nat \<Rightarrow> string" where
  "pad 0 n = []"
| "pad (Suc k) n = pad k (n div 10) @ [digit_char (n mod 10)]"

definition valid_day :: "nat \<times> nat \<times> nat \<Rightarrow> bool" where
  "valid_day ymd =
     (case ymd of (y, m, d) \<Rightarrow> y \<le> 9999 \<and> 1 \<le> m \<and> m \<le> 12 \<and> 1 \<le> d \<and> d \<le> 31)"

definition date_to_string :: "nat \<times> nat \<times> nat \<Rightarrow> string" where
  "date_to_string ymd =
     (case ymd of (y, m, d) \<Rightarrow> pad 4 y @ ''-'' @ pad 2 m @ ''-'' @ pad 2 d)"

definition date_from_string_type_error :: string where
  "date_from_string_type_error = ''$dateFromString requires that dateString be a string''"

definition date_to_string_range_error :: string where
  "date_to_string_range_error = ''Could not convert date to string: date component was outside the supported range''"

definition day_key :: "'n env \<Rightarrow> 'n document \<Rightarrow> string + string option" where
  "day_key e d =
     (case map_of d ''order_date'' of
        None \<Rightarrow> Inr None
      | Some Null \<Rightarrow> Inr None
      | Some (Str s) \<Rightarrow>
          (case date_from_string e s of
             Inl msg \<Rightarrow> Inl msg
           | Inr ymd \<Rightarrow>
               if valid_day ymd then Inr (Some (date_to_string ymd))
               else Inl date_to_string_range_error)
      | Some _ \<Rightarrow> Inl date_from_string_type_error)"

text \<open>The keys of all the documents, or the first error.\<close>

fun day_keys :: "'n env \<Rightarrow> 'n document list \<Rightarrow> string + (string option \<times> 'n document) list" where
  "day_keys e [] = Inr []"
| "day_keys e (d # ds) =
     (case day_key e d of
        Inl msg \<Rightarrow> Inl msg
      | Inr k \<Rightarrow> (case day_keys e ds of Inl msg \<Rightarrow> Inl msg | Inr ks \<Rightarrow> Inr ((k, d) # ks)))"

record 'n daily =
  date :: "string option"
  revenue :: "'n cell"
  orders :: int

definition daily_revenue_pipeline ::
  "'n::{zero,plus} env \<Rightarrow> 'n document list \<Rightarrow> string + 'n daily list" where
  "daily_revenue_pipeline e ds =
     (case day_keys e ds of
        Inl msg \<Rightarrow> Inl msg
      | Inr ks \<Rightarrow>
          Inr (take 30 (sort_key date
            (map (\<lambda>(k, g). \<lparr>date = k, revenue = mongo_sum ''total_price'' (map snd g),
                              orders = int (length g)\<rparr>)
                 (group_by fst ks)))))"

text \<open>
  The response. \<^verbatim>\<open>item["_id"]["product_id"]\<close> and \<^verbatim>\<open>item["_id"]["product_name"]\<close> raise a
  KeyError for a group whose documents lack the field.
\<close>

record 'n top_product =
  product_id :: "'n cell"
  product_name :: "'n cell"
  product_total_revenue :: "'n cell"
  product_total_quantity :: "'n cell"
  product_order_count :: int

definition top_product_item :: "'n product_group \<Rightarrow> string + 'n top_product" where
  "top_product_item g =
     (case group_product_id g of
        None \<Rightarrow> Inl (key_error ''product_id'')
      | Some pid \<Rightarrow>
          (case group_product_name g of
             None \<Rightarrow> Inl (key_error ''product_name'')
           | Some pname \<Rightarrow>
               Inr \<lparr>product_id = pid, product_name = pname,
                    product_total_revenue = group_total_revenue g,
                    product_total_quantity = group_total_quantity g,
                    product_order_count = group_order_count g\<rparr>))"

fun top_product_items :: "'n product_group list \<Rightarrow> string + 'n top_product list" where
  "top_product_items [] = Inr []"
| "top_product_items (g # gs) =
     (case top_product_item g of
        Inl msg \<Rightarrow> Inl msg
      | Inr p \<Rightarrow> (case top_product_items gs of Inl msg \<Rightarrow> Inl msg | Inr ps \<Rightarrow> Inr (p # ps)))"

text \<open>
  The number of distinct values \<^verbatim>\<open>$addToSet\<close> collects for a field (a document without
  the field adds nothing).
\<close>

definition count_distinct :: "string \<Rightarrow> 'n document list \<Rightarrow> int" where
  "count_distinct k ds = int (length (remdups (List.map_filter (\<lambda>d. map_of d k) ds)))"

text \<open>
  The payload with data. (The date range of the source, the store's \<^verbatim>\<open>$min\<close> and \<^verbatim>\<open>$max\<close>
  of \<^verbatim>\<open>order_date\<close>, is left out: it needs the store's order across all types of values.)
\<close>

record 'n stats =
  total_records :: int
  total_revenue :: "'n cell"
  unique_customers :: int
  unique_products :: int
  top_products :: "'n top_product list"
  top_customers :: "'n top_customer list"
  daily_revenue :: "'n daily list"

datatype 'n overview = EmptyState int string | Overview "'n stats"

definition get_analytics_overview ::
  "'n::{zero,plus,linorder} env \<Rightarrow> 'n db \<Rightarrow> http_exception + 'n overview" where
  "get_analytics_overview e store =
     (let total = int (length (ecommerce_data store)) in
      if total = 0
      then Inr (EmptyState 0 ''No data available. Please upload a CSV file first.'')
      else
        let ds = ecommerce_data store;
            products = top_products_pipeline ds;
            customers = top_customers_pipeline ds
        in (case daily_revenue_pipeline e ds of
              Inl msg \<Rightarrow> Inl (HTTPException 500 (''Error fetching analytics: '' @ msg))
            | Inr daily \<Rightarrow>
                (case top_product_items products of
                   Inl msg \<Rightarrow> Inl (HTTPException 500 (''Error fetching analytics: '' @ msg))
                 | Inr items \<Rightarrow>
                     Inr (Overview
                       \<lparr>total_records = total,
                        total_revenue = mongo_sum ''total_price'' ds,
                        unique_customers = count_distinct ''customer_id'' ds,
                        unique_products = count_distinct ''product_id'' ds,
                        top_products = items,
                        top_customers = customers,
                        daily_revenue = daily\<rparr>))))"

section \<open>A concrete environment\<close>

text \<open>
  An environment to run the program in.
  \<^item> The content \<open>text\<close> parses to the frame \<open>df\<close>; any other content fails to parse.
  \<^item> Numbers: the examples hold whole numbers only. A string is read as pandas reads it
    when it is a whole number: blanks around it are dropped, a sign may lead, a fraction of
    zeros may follow. (The numbers are unbounded integers; no example reaches the range
    where an int64 wraps.)
  \<^item> Dates: the examples write them as \<^verbatim>\<open>YYYY-MM-DD\<close> or \<^verbatim>\<open>YYYY-MM-DDTHH:MM:SS\<close>. Such a
    string is a date when the day exists in the calendar and the time on the clock; pandas
    gives the Timestamp whose ISO text has the time (midnight when none was written), and
    the store reads the same day from that text. Any other cell is no date.
  \<^item> \<^verbatim>\<open>insert_many\<close> refuses an empty list, and a document whose \<^verbatim>\<open>order_date\<close> is NaT
    (the driver cannot encode it), as the driver does.
  \<^item> \<^verbatim>\<open>str\<close> of an \<^verbatim>\<open>HTTPException\<close> is its status, a colon and its detail.
\<close>

definition digit_of :: "char \<Rightarrow> nat option" where
  "digit_of c = map_of (zip ''0123456789'' [0, 1, 2, 3, 4, 5, 6, 7, 8, 9]) c"

fun digits_value :: "nat \<Rightarrow> string \<Rightarrow> nat option" where
  "digits_value acc [] = Some acc"
| "digits_value acc (c # cs) =
     (case digit_of c of None \<Rightarrow> None | Some d \<Rightarrow> digits_value (10 * acc + d) cs)"

definition strip :: "string \<Rightarrow> string" where
  "strip s = rev (dropWhile (\<lambda>c. c = CHR '' '') (rev (dropWhile (\<lambda>c. c = CHR '' '') s)))"

definition demo_parse_number :: "string \<Rightarrow> int option" where
  "demo_parse_number s =
     (let t = strip s;
          negative = (take 1 t = ''-'');
          body = (if take 1 t = ''-'' \<or> take 1 t = ''+'' then drop 1 t else t);
          whole = takeWhile (\<lambda>c. c \<noteq> CHR ''.'') body;
          zeros = drop 1 (dropWhile (\<lambda>c. c \<noteq> CHR ''.'') body)
      in if whole \<noteq> [] \<and> list_all (\<lambda>c. c = CHR ''0'') zeros
         then map_option (\<lambda>n. if negative then - int n else int n) (digits_value 0 whole)
         else None)"

definition leap_year :: "nat \<Rightarrow> bool" where
  "leap_year y = (if y mod 100 = 0 then y mod 400 = 0 else y mod 4 = 0)"

definition days_in_month :: "nat \<Rightarrow> nat \<Rightarrow> nat" where
  "days_in_month y m =
     (if m = 2 then (if leap_year y then 29 else 28)
      else if m = 4 \<or> m = 6 \<or> m = 9 \<or> m = 11 then 30
      else 31)"

definition demo_clock :: "string \<Rightarrow> bool" where
  "demo_clock t =
     (length t = 8 \<and> t ! 2 = CHR '':'' \<and> t ! 5 = CHR '':'' \<and>
      (case (digits_value 0 (take 2 t), digits_value 0 (take 2 (drop 3 t)),
             digits_value 0 (drop 6 t)) of
         (Some h, Some m, Some sec) \<Rightarrow> h < 24 \<and> m < 60 \<and> sec < 60
       | _ \<Rightarrow> False))"

definition demo_iso_date :: "string \<Rightarrow> (nat \<times> nat \<times> nat) option" where
  "demo_iso_date s =
     (if (length s = 10 \<or> (length s = 19 \<and> s ! 10 = CHR ''T'' \<and> demo_clock (drop 11 s))) \<and>
         s ! 4 = CHR ''-'' \<and> s ! 7 = CHR ''-''
      then (case (digits_value 0 (take 4 s), digits_value 0 (take 2 (drop 5 s)),
                  digits_value 0 (take 2 (drop 8 s))) of
              (Some y, Some m, Some d) \<Rightarrow>
                if 1 \<le> m \<and> m \<le> 12 \<and> 1 \<le> d \<and> d \<le> days_in_month y m
                then Some (y, m, d) else None
            | _ \<Rightarrow> None)
      else None)"

definition demo_date_from_string :: "string \<Rightarrow> string + (nat \<times> nat \<times> nat)" where
  "demo_date_from_string s =
     (case demo_iso_date s of
        Some ymd \<Rightarrow> Inr ymd
      | None \<Rightarrow> Inl (''Error parsing date string '' @ s))"

definition demo_parse_datetime :: "int cell \<Rightarrow> string option" where
  "demo_parse_datetime c =
     (case c of
        Str s \<Rightarrow>
          (case demo_iso_date s of
             Some ymd \<Rightarrow> Some (if length s = 10 then s @ ''T00:00:00'' else s)
           | None \<Rightarrow> None)
      | _ \<Rightarrow> None)"

definition demo_insert_many_error :: "(string \<times> int cell) list list \<Rightarrow> string option" where
  "demo_insert_many_error ds =
     (if ds = [] then Some ''documents must be a non-empty list''
      else if list_ex (\<lambda>d. map_of d ''order_date'' = Some Null) ds
      then Some ''NaTType does not support utcoffset''
      else None)"

definition demo_env :: "string \<Rightarrow> int dataframe \<Rightarrow> int env" where
  "demo_env text df =
     \<lparr>read_csv = (\<lambda>c. if c = text then Inr df else Inl ''No columns to parse from file''),
      parse_number = demo_parse_number,
      parse_datetime = demo_parse_datetime,
      insert_many_error = demo_insert_many_error,
      str_http_exception = (\<lambda>code detail. str_nat code @ '': '' @ detail),
      uuid4 = (\<lambda>i. ''id-'' @ str_nat i),
      log_uuid = ''log-0'',
      now = ''2024-01-01T00:00:00+00:00'',
      elapsed = 0,
      date_from_string = demo_date_from_string\<rparr>"

definition empty_db :: "int db" where
  "empty_db = \<lparr>ecommerce_data = [], processing_logs = []\<rparr>"

text \<open>
  Parsed frames for the examples, each with the CSV text it is the parse of.
  \<open>orders_csv\<close>: three data rows under recognised synonyms, the second a copy of the first.
  \<open>unmapped_csv\<close>: no required column. \<open>bad_quantity_csv\<close>: a quantity that is no number.
  \<open>two_quantities_csv\<close>: two columns that both normalise to \<^verbatim>\<open>quantity\<close>.
\<close>

definition orders_csv :: string where
  "orders_csv = ''Invoice,StockCode,Quantity,UnitPrice\<newline>A1,P1,3,2\<newline>A1,P1,3,2\<newline>A2,P2,1,5\<newline>''"

definition orders_df :: "int dataframe" where
  "orders_df =
     \<lparr>columns = [''Invoice'', ''StockCode'', ''Quantity'', ''UnitPrice''],
      rows = [[Str ''A1'', Str ''P1'', Num 3, Num 2],
              [Str ''A1'', Str ''P1'', Num 3, Num 2],
              [Str ''A2'', Str ''P2'', Num 1, Num 5]]\<rparr>"

definition unmapped_csv :: string where
  "unmapped_csv = ''a,b\<newline>1,2\<newline>''"

definition unmapped_df :: "int dataframe" where
  "unmapped_df = \<lparr>columns = [''a'', ''b''], rows = [[Num 1, Num 2]]\<rparr>"

definition bad_quantity_csv :: string where
  "bad_quantity_csv = ''order_id,product_id,quantity,unit_price\<newline>A1,P1,abc,2\<newline>''"

definition bad_quantity_df :: "int dataframe" where
  "bad_quantity_df =
     \<lparr>columns = [''order_id'', ''product_id'', ''quantity'', ''unit_price''],
      rows = [[Str ''A1'', Str ''P1'', Str ''abc'', Num 2]]\<rparr>"

definition two_quantities_csv :: string where
  "two_quantities_csv = ''order_id,product_id,quantity,qty,unit_price\<newline>A1,P1,3,3,2\<newline>''"

definition two_quantities_df :: "int dataframe" where
  "two_quantities_df =
     \<lparr>columns = [''order_id'', ''product_id'', ''quantity'', ''qty'', ''unit_price''],
      rows = [[Str ''A1'', Str ''P1'', Num 3, Num 3, Num 2]]\<rparr>"

text \<open>
  A frame, as the schema stage could be handed one, that already has a column labelled
  \<^verbatim>\<open>total_price\<close>, whose value is not the product of the other two.
\<close>

definition supplied_total_df :: "int dataframe" where
  "supplied_total_df =
     \<lparr>columns = [''quantity'', ''unit_price'', ''total_price''],
      rows = [[Str ''3'', Num 2, Num 7]]\<rparr>"

text \<open>
  \<open>sales_csv\<close>: seven order lines of six products and six customers on four days.
\<close>

definition sales_csv :: string where
  "sales_csv =
     ''InvoiceNo,StockCode,Description,Quantity,UnitPrice,CustomerID,InvoiceDate\<newline>'' @
     ''A1,P1,Pen,3,2,C1,2024-03-02T10:00:00\<newline>'' @
     ''A2,P2,Ink,1,5,C2,2024-03-01T09:00:00\<newline>'' @
     ''A3,P3,Pad,2,4,C1,2024-03-01T12:00:00\<newline>'' @
     ''A4,P4,Cap,1,1,C3,2024-03-03T08:00:00\<newline>'' @
     ''A5,P5,Bag,1,9,C4,2024-03-02T11:00:00\<newline>'' @
     ''A6,P6,Box,2,3,C5,2024-03-04T10:00:00\<newline>'' @
     ''A7,P1,Pen,1,2,C6,2024-03-04T11:00:00\<newline>''"

definition sales_df :: "int dataframe" where
  "sales_df =
     \<lparr>columns = [''InvoiceNo'', ''StockCode'', ''Description'', ''Quantity'', ''UnitPrice'',
                 ''CustomerID'', ''InvoiceDate''],
      rows = [[Str ''A1'', Str ''P1'', Str ''Pen'', Num 3, Num 2, Str ''C1'', Str ''2024-03-02T10:00:00''],
              [Str ''A2'', Str ''P2'', Str ''Ink'', Num 1, Num 5, Str ''C2'', Str ''2024-03-01T09:00:00''],
              [Str ''A3'', Str ''P3'', Str ''Pad'', Num 2, Num 4, Str ''C1'', Str ''2024-03-01T12:00:00''],
              [Str ''A4'', Str ''P4'', Str ''Cap'', Num 1, Num 1, Str ''C3'', Str ''2024-03-03T08:00:00''],
              [Str ''A5'', Str ''P5'', Str ''Bag'', Num 1, Num 9, Str ''C4'', Str ''2024-03-02T11:00:00''],
              [Str ''A6'', Str ''P6'', Str ''Box'', Num 2, Num 3, Str ''C5'', Str ''2024-03-04T10:00:00''],
              [Str ''A7'', Str ''P1'', Str ''Pen'', Num 1, Num 2, Str ''C6'', Str ''2024-03-04T11:00:00'']]\<rparr>"

text \<open>The store after the upload of \<open>sales_csv\<close> into an empty database.\<close>

definition sales_db :: "int db" where
  "sales_db = snd (upload_file (demo_env sales_csv sales_df) ''sales.csv'' sales_csv empty_db)"

text \<open>
  \<open>bad_date_csv\<close>: an order date that is no date. \<open>repeated_df\<close>: five rows, of which two
  are copies of earlier rows and two (one a copy of the other) have a missing cell.
\<close>

definition bad_date_csv :: string where
  "bad_date_csv =
     ''order_id,product_id,quantity,unit_price,order_date\<newline>A1,P1,3,2,not a date\<newline>''"

definition bad_date_df :: "int dataframe" where
  "bad_date_df =
     \<lparr>columns = [''order_id'', ''product_id'', ''quantity'', ''unit_price'', ''order_date''],
      rows = [[Str ''A1'', Str ''P1'', Num 3, Num 2, Str ''not a date'']]\<rparr>"

definition repeated_df :: "int dataframe" where
  "repeated_df =
     \<lparr>columns = [''a'', ''b''],
      rows = [[Num 1, Null], [Num 1, Num 2], [Num 1, Num 2], [Num 3, Str ''x''], [Num 1, Null]]\<rparr>"

section \<open>Invariants of the schema stage\<close>

text \<open>
  \<open>nulls_within S df\<close>: a missing cell of the frame stands under a label of \<open>S\<close>.
  \<open>priced df\<close>: the frame has exactly one column of each of the labels
  \<^verbatim>\<open>quantity\<close>, \<^verbatim>\<open>unit_price\<close> and \<^verbatim>\<open>total_price\<close>, and in every row the third is the
  product of the first two.
\<close>

definition nulls_within :: "string set \<Rightarrow> 'n dataframe \<Rightarrow> bool" where
  "nulls_within S df =
     (\<forall>r\<in>set (rows df). \<forall>k. (k, Null) \<in> set (zip (columns df) r) \<longrightarrow> k \<in> S)"

definition priced :: "'n::times dataframe \<Rightarrow> bool" where
  "priced df =
     (count_list (columns df) ''quantity'' = 1 \<and>
      count_list (columns df) ''unit_price'' = 1 \<and>
      count_list (columns df) ''total_price'' = 1 \<and>
      (\<forall>r\<in>set (rows df).
         cell_at (columns df) r ''total_price'' =
           cell_mul (cell_at (columns df) r ''quantity'') (cell_at (columns df) r ''unit_price'')))"

section \<open>Properties of the cleaner\<close>

lemma drop_duplicates_from_cong:
  "(\<And>y. y \<in> set ys \<Longrightarrow> (y \<in> set s1) = (y \<in> set s2)) \<Longrightarrow>
   drop_duplicates_from s1 ys = drop_duplicates_from s2 ys"
proof (induction ys arbitrary: s1 s2)
  case Nil
  show ?case by simp
next
  case (Cons y ys)
  have mem: "(y \<in> set s1) = (y \<in> set s2)"
    using Cons.prems by simp
  have tl1: "drop_duplicates_from s1 ys = drop_duplicates_from s2 ys"
    by (rule Cons.IH) (simp add: Cons.prems)
  have tl2: "drop_duplicates_from (y # s1) ys = drop_duplicates_from (y # s2) ys"
    by (rule Cons.IH) (simp add: Cons.prems)
  show ?case using mem tl1 tl2 by simp
qed

lemma filter_drop_duplicates_from:
  "filter P (drop_duplicates_from seen xs) = drop_duplicates_from seen (filter P xs)"
proof (induction xs arbitrary: seen)
  case Nil
  show ?case by simp
next
  case (Cons x xs)
  show ?case
  proof (cases "P x")
    case True
    then show ?thesis by (simp add: Cons.IH)
  next
    case False
    have "drop_duplicates_from (x # seen) (filter P xs) = drop_duplicates_from seen (filter P xs)"
      by (rule drop_duplicates_from_cong) (use False in auto)
    with False show ?thesis by (simp add: Cons.IH)
  qed
qed

lemma set_drop_duplicates_from:
  "set (drop_duplicates_from seen xs) = set xs - set seen"
  by (induction xs arbitrary: seen) auto

lemma length_drop_duplicates_from:
  "length (drop_duplicates_from seen xs) \<le> length xs"
  by (induction xs arbitrary: seen) (auto simp: le_SucI)

lemma isnull_sum_dropna: "isnull_sum (dropna df) = 0"
  by (auto simp: isnull_sum_def dropna_def filter_empty_conv)

lemma isnull_sum_pos: "(0 < isnull_sum df) = has_null df"
proof -
  have "(0 < sum_list (map (\<lambda>r. length (filter (\<lambda>c. c = Null) r)) rs))
        = (\<exists>r \<in> set rs. Null \<in> set r)" for rs :: "'a cell list list"
    by (induction rs) (auto simp: filter_empty_conv)
  then show ?thesis
    by (simp add: isnull_sum_def has_null_def list_ex_iff)
qed

lemma has_null_drop_duplicates: "has_null (drop_duplicates df) = has_null df"
  by (simp add: has_null_def drop_duplicates_def list_ex_iff set_drop_duplicates_from)

lemma fst_clean_dataframe: "fst (clean_dataframe df) = dropna (drop_duplicates df)"
  by (simp add: clean_dataframe_def Let_def)

lemma duplicate_message_neq_missing_message: "duplicate_message k \<noteq> missing_message n"
proof
  assume "duplicate_message k = missing_message n"
  then have "take 2 (rev (duplicate_message k)) = take 2 (rev (missing_message n))"
    by simp
  then show False
    by (simp add: duplicate_message_def missing_message_def)
qed

lemma snd_clean_dataframe:
  "snd (clean_dataframe df) =
     (if 0 < len df - len (drop_duplicates df)
      then [duplicate_message (len df - len (drop_duplicates df))] else []) @
     (if has_null df then [missing_message (len (dropna (drop_duplicates df)))] else [])"
  using isnull_sum_pos [of "drop_duplicates df"]
  by (simp add: clean_dataframe_def Let_def isnull_sum_dropna has_null_drop_duplicates)

lemma distinct_drop_duplicates_from: "distinct (drop_duplicates_from seen xs)"
  by (induction xs arbitrary: seen) (auto simp: set_drop_duplicates_from)

lemma fst_clean_missing_first: "fst (clean_missing_first df) = drop_duplicates (dropna df)"
  by (simp add: clean_missing_first_def Let_def)

text \<open>
  Claim C5. The cleaner removes exact duplicate rows first and rows with a missing cell
  second. The frame it returns has the columns of its input, no row twice and no row with
  a missing cell, and its rows are exactly the rows of the input that have no missing
  cell. The order of the two removals does not matter for the rows that survive: the
  cleaner that removes the rows with a missing cell first and the duplicates second
  returns the same frame (only its diagnostics can differ, as the example shows).
\<close>

theorem clean_dataframe_order_commutes:
  "fst (clean_dataframe df) = dropna (drop_duplicates df) \<and>
   dropna (drop_duplicates df) = drop_duplicates (dropna df) \<and>
   fst (clean_dataframe df) = fst (clean_missing_first df) \<and>
   columns (fst (clean_dataframe df)) = columns df \<and>
   distinct (rows (fst (clean_dataframe df))) \<and>
   set (rows (fst (clean_dataframe df))) = {r \<in> set (rows df). Null \<notin> set r}"
proof -
  have swap: "dropna (drop_duplicates df) = drop_duplicates (dropna df)"
    by (simp add: dropna_def drop_duplicates_def filter_drop_duplicates_from)
  have cols: "columns (dropna (drop_duplicates df)) = columns df"
    by (simp add: dropna_def drop_duplicates_def)
  have dist: "distinct (rows (drop_duplicates (dropna df)))"
    by (simp add: drop_duplicates_def distinct_drop_duplicates_from)
  have rws: "set (rows (dropna (drop_duplicates df))) = {r \<in> set (rows df). Null \<notin> set r}"
    by (auto simp: dropna_def drop_duplicates_def set_drop_duplicates_from)
  show ?thesis
    using swap cols dist rws
    by (simp add: fst_clean_dataframe fst_clean_missing_first)
qed

text \<open>
  Five rows: the third repeats the second, the fifth repeats the first, and the first has
  a missing cell. Both orders leave the same two rows. Duplicates first removes 2
  duplicates; missing values first removes 1.
\<close>

theorem clean_dataframe_order_commutes_witness:
  "rows (fst (clean_dataframe repeated_df)) = [[Num 1, Num 2], [Num 3, Str ''x'']] \<and>
   rows (fst (clean_missing_first repeated_df)) = [[Num 1, Num 2], [Num 3, Str ''x'']] \<and>
   fst (clean_dataframe repeated_df) = fst (clean_missing_first repeated_df) \<and>
   distinct (rows (fst (clean_dataframe repeated_df))) \<and>
   snd (clean_dataframe repeated_df) =
     [''Removed 2 duplicate records'', ''Removed 2 records with missing values''] \<and>
   snd (clean_missing_first repeated_df) =
     [''Removed 3 records with missing values'', ''Removed 1 duplicate records'']"
proof -
  have a: "rows (fst (clean_dataframe repeated_df)) = [[Num 1, Num 2], [Num 3, Str ''x'']]"
    by code_simp
  have b: "snd (clean_dataframe repeated_df) =
     [''Removed 2 duplicate records'', ''Removed 2 records with missing values'']"
    by code_simp
  have c: "snd (clean_missing_first repeated_df) =
     [''Removed 3 records with missing values'', ''Removed 1 duplicate records'']"
    by code_simp
  have t: "fst (clean_dataframe repeated_df) = fst (clean_missing_first repeated_df)"
    "distinct (rows (fst (clean_dataframe repeated_df)))"
    using clean_dataframe_order_commutes [of repeated_df] by blast+
  have a': "rows (fst (clean_missing_first repeated_df)) = [[Num 1, Num 2], [Num 3, Str ''x'']]"
    unfolding t(1) [symmetric] by (rule a)
  show ?thesis
    using a a' t b c by blast
qed

text \<open>
  Claim C10. The diagnostics of the cleaner are the duplicate message (when duplicates
  were removed) followed by the missing-value message exactly when the input frame has a
  missing cell, and the number in that message is the number of rows that remain after the
  removal. Without a missing cell no missing-value message, whatever its number, is emitted.
\<close>

theorem missing_diagnostic_counts_survivors:
  "snd (clean_dataframe df) =
     (if 0 < len df - len (drop_duplicates df)
      then [duplicate_message (len df - len (drop_duplicates df))] else []) @
     (if has_null df then [missing_message (len (fst (clean_dataframe df)))] else []) \<and>
   (\<forall>n. missing_message n \<in> set (snd (clean_dataframe df)) \<longrightarrow> has_null df)"
proof -
  have eq: "snd (clean_dataframe df) =
     (if 0 < len df - len (drop_duplicates df)
      then [duplicate_message (len df - len (drop_duplicates df))] else []) @
     (if has_null df then [missing_message (len (fst (clean_dataframe df)))] else [])"
    by (simp add: snd_clean_dataframe fst_clean_dataframe)
  have "has_null df" if "missing_message n \<in> set (snd (clean_dataframe df))" for n
  proof (rule ccontr)
    assume "\<not> has_null df"
    with that have "missing_message n = duplicate_message (len df - len (drop_duplicates df))"
      by (simp add: snd_clean_dataframe split: if_splits)
    then show False
      using duplicate_message_neq_missing_message by metis
  qed
  with eq show ?thesis by blast
qed

text \<open>
  Three parsed rows, one of them with a missing cell: one row is removed, two remain, and
  the message says 2.
\<close>

theorem missing_diagnostic_counts_survivors_witness:
  "has_null \<lparr>columns = [''a'', ''b''],
             rows = [[Num (1::int), Null], [Num 1, Num 2], [Num 3, Str ''x'']]\<rparr> \<and>
   missing_message 2 \<in> set (snd (clean_dataframe
      \<lparr>columns = [''a'', ''b''],
       rows = [[Num (1::int), Null], [Num 1, Num 2], [Num 3, Str ''x'']]\<rparr>)) \<and>
   snd (clean_dataframe
      \<lparr>columns = [''a'', ''b''],
       rows = [[Num (1::int), Null], [Num 1, Num 2], [Num 3, Str ''x'']]\<rparr>)
     = [''Removed 2 records with missing values'']"
  using missing_diagnostic_counts_survivors
    [of "\<lparr>columns = [''a'', ''b''],
          rows = [[Num (1::int), Null], [Num 1, Num 2], [Num 3, Str ''x'']]\<rparr>"]
  by (simp add: has_null_def clean_dataframe_def Let_def len_def drop_duplicates_def dropna_def
        isnull_sum_def missing_message_def str_int_def str_nat.simps digit_char_def)

section \<open>Properties of the schema stage and of the stored records\<close>

lemma map_of_fold_update:
  "map_of (fold (\<lambda>(k, v) d. AList.update k v d) kvs d) = map_of (rev kvs @ d)"
  by (induction kvs arbitrary: d) (auto simp: update_conv' fun_eq_iff map_add_def split: option.splits)

lemma map_of_to_dict: "map_of (to_dict cols r) = map_of (rev (zip cols r))"
  by (simp add: to_dict_def map_of_fold_update)

lemma map_of_to_dict_SomeD:
  "map_of (to_dict cols r) k = Some v \<Longrightarrow> (k, v) \<in> set (zip cols r)"
  by (auto simp: map_of_to_dict dest: map_of_SomeD)

lemma map_of_rev_zip_None:
  "k \<notin> set cols \<Longrightarrow> map_of (rev (zip cols r)) k = None"
  by (auto simp: map_of_eq_None_iff dest: set_zip_leftD)

lemma map_of_rev_zip_once:
  "length r = length cols \<Longrightarrow> count_list cols k = 1 \<Longrightarrow>
   map_of (rev (zip cols r)) k = map_of (zip cols r) k"
proof (induction r cols rule: list_induct2)
  case Nil
  then show ?case by simp
next
  case (Cons x xs c cs)
  show ?case
  proof (cases "c = k")
    case True
    with Cons.prems have "k \<notin> set cs"
      by (simp add: count_list_0_iff)
    then show ?thesis
      using True by (simp add: map_add_def map_of_rev_zip_None)
  next
    case False
    with Cons count_list_0_iff [of cs k] show ?thesis
      by (auto simp: map_add_def split: option.splits)
  qed
qed

lemma map_of_to_dict_once:
  "length r = length cols \<Longrightarrow> count_list cols k = 1 \<Longrightarrow>
   map_of (to_dict cols r) k = Some (cell_at cols r k)"
proof -
  assume len: "length r = length cols" and once: "count_list cols k = 1"
  have "k \<in> set cols"
    using once count_list_0_iff [of cols k] by auto
  then have "k \<in> fst ` set (zip cols r)"
    using len by (metis map_fst_zip set_map)
  then obtain v where "map_of (zip cols r) k = Some v"
    by (metis domIff dom_map_of_conv_image_fst not_Some_eq)
  then show ?thesis
    by (simp add: map_of_to_dict map_of_rev_zip_once [OF len once] cell_at_def)
qed

lemma columns_setitem:
  "columns (setitem df c vals) = (if c \<in> set (columns df) then columns df else columns df @ [c])"
  by (simp add: setitem_def)

lemma length_rows_setitem:
  "length vals = length (rows df) \<Longrightarrow> length (rows (setitem df c vals)) = length (rows df)"
  by (simp add: setitem_def)

lemma rows_setitem_cases:
  assumes "r' \<in> set (rows (setitem df c vals))"
  obtains r v where "r \<in> set (rows df)" and "c \<in> set (columns df)"
      and "r' = map2 (\<lambda>name x. if name = c then v else x) (columns df) r"
    | r v where "r \<in> set (rows df)" and "c \<notin> set (columns df)" and "r' = r @ [v]"
  using assms by (auto simp: setitem_def split: if_splits dest: set_zip_leftD)

lemma wf_setitem: "wf_dataframe df \<Longrightarrow> wf_dataframe (setitem df c vals)"
  unfolding wf_dataframe_def list_all_iff
proof
  fix r' assume wf: "\<forall>r\<in>set (rows df). length r = length (columns df)"
    and "r' \<in> set (rows (setitem df c vals))"
  then show "length r' = length (columns (setitem df c vals))"
    by (elim rows_setitem_cases) (auto simp: columns_setitem)
qed

lemma zip_replace_label:
  "(k, x) \<in> set (zip cols (map2 (\<lambda>name y. if name = c then v else y) cols r)) \<Longrightarrow>
   (k = c \<and> x = v) \<or> (k, x) \<in> set (zip cols r)"
proof (induction cols arbitrary: r)
  case Nil
  then show ?case by simp
next
  case (Cons a cols)
  then show ?case by (cases r) (auto split: if_splits)
qed

lemma cell_at_replace_other:
  "k \<noteq> c \<Longrightarrow>
   cell_at cols (map2 (\<lambda>name y. if name = c then v else y) cols r) k = cell_at cols r k"
proof (induction cols arbitrary: r)
  case Nil
  then show ?case by (simp add: cell_at_def)
next
  case (Cons a cols)
  then show ?case by (cases r) (auto simp: cell_at_def)
qed

lemma cell_at_append_old:
  "length r = length cols \<Longrightarrow> k \<in> set cols \<Longrightarrow>
   cell_at (cols @ [c]) (r @ [v]) k = cell_at cols r k"
proof -
  assume len: "length r = length cols" and "k \<in> set cols"
  then have "k \<in> fst ` set (zip cols r)"
    by (metis map_fst_zip set_map)
  then have "k \<in> dom (map_of (zip cols r))"
    by (simp add: dom_map_of_conv_image_fst)
  then show ?thesis
    using len by (auto simp: cell_at_def map_add_def split: option.splits)
qed

lemma cell_at_append_new:
  "length r = length cols \<Longrightarrow> c \<notin> set cols \<Longrightarrow> cell_at (cols @ [c]) (r @ [v]) c = v"
proof -
  assume len: "length r = length cols" and "c \<notin> set cols"
  then have none: "map_of (zip cols r) c = None"
    by (auto simp: map_of_eq_None_iff dest: set_zip_leftD)
  show ?thesis
    using len by (simp add: cell_at_def map_add_def none)
qed

lemma nulls_setitem:
  assumes wf: "wf_dataframe df"
    and inv: "\<forall>r\<in>set (rows df). \<forall>k. (k, Null) \<in> set (zip (columns df) r) \<longrightarrow> k \<in> S"
    and c: "c \<in> S"
  shows "\<forall>r\<in>set (rows (setitem df c vals)).
           \<forall>k. (k, Null) \<in> set (zip (columns (setitem df c vals)) r) \<longrightarrow> k \<in> S"
proof (intro ballI allI impI)
  fix r' k
  assume r': "r' \<in> set (rows (setitem df c vals))"
    and k: "(k, Null) \<in> set (zip (columns (setitem df c vals)) r')"
  from r' show "k \<in> S"
  proof (cases rule: rows_setitem_cases)
    case (1 r v)
    with k have "(k, Null) \<in> set (zip (columns df)
        (map2 (\<lambda>name x. if name = c then v else x) (columns df) r))"
      by (simp add: columns_setitem)
    from zip_replace_label [OF this] show ?thesis
      using inv 1 c by auto
  next
    case (2 r v)
    have "length r = length (columns df)"
      using wf 2 by (simp add: wf_dataframe_def list_all_iff)
    with k 2 have "(k, Null) \<in> set (zip (columns df) r) \<or> k = c"
      by (auto simp: columns_setitem)
    then show ?thesis
      using inv 2 c by auto
  qed
qed

lemma nulls_within_setitem:
  "wf_dataframe df \<Longrightarrow> nulls_within S df \<Longrightarrow> c \<in> S \<Longrightarrow> nulls_within S (setitem df c vals)"
  unfolding nulls_within_def by (rule nulls_setitem)

lemma getitem_Series_length: "getitem df c = Series q \<Longrightarrow> length q = length (rows df)"
  by (auto simp: getitem_def split: if_splits)

lemma wf_convert_types: "wf_dataframe df \<Longrightarrow> wf_dataframe (fst (convert_types e df))"
  by (simp add: convert_types_def Let_def wf_setitem split: selection.splits)

lemma length_rows_convert_types:
  "length (rows (fst (convert_types e df))) = length (rows df)"
  by (simp add: convert_types_def Let_def length_rows_setitem getitem_Series_length
      split: selection.splits)

lemma nulls_within_convert_types:
  assumes "wf_dataframe df" and "nulls_within S df"
    and "{''quantity'', ''unit_price'', ''total_price'', ''order_date''} \<subseteq> S"
  shows "nulls_within S (fst (convert_types e df))"
  using assms
  by (simp add: convert_types_def Let_def wf_setitem nulls_within_setitem
      split: selection.splits)

lemma wf_relabel: "wf_dataframe (df\<lparr>columns := map f (columns df)\<rparr>) = wf_dataframe df"
  by (simp add: wf_dataframe_def)

lemma nulls_within_no_null:
  "\<forall>r\<in>set (rows df). Null \<notin> set r \<Longrightarrow> nulls_within S df"
  by (auto simp: nulls_within_def dest: set_zip_rightD)

lemma fst_standardize_schema:
  "fst (standardize_schema e df) =
     (if filter (\<lambda>col. col \<notin> set (map (rename_column \<circ> normalize_name) (columns df)))
           required_columns \<noteq> []
      then df\<lparr>columns := map (rename_column \<circ> normalize_name) (columns df)\<rparr>
      else fst (convert_types e
             (df\<lparr>columns := map (rename_column \<circ> normalize_name) (columns df)\<rparr>)))"
  by (simp add: standardize_schema_def Let_def image_image split: prod.splits option.splits)

lemma wf_standardize_schema:
  "wf_dataframe df \<Longrightarrow> wf_dataframe (fst (standardize_schema e df))"
  by (simp add: fst_standardize_schema wf_convert_types wf_relabel)

lemma length_rows_standardize_schema:
  "length (rows (fst (standardize_schema e df))) = length (rows df)"
  by (simp add: fst_standardize_schema length_rows_convert_types)

lemma nulls_within_standardize_schema:
  assumes "wf_dataframe df" and "\<forall>r\<in>set (rows df). Null \<notin> set r"
  shows "nulls_within {''quantity'', ''unit_price'', ''total_price'', ''order_date''}
           (fst (standardize_schema e df))"
  using assms
  by (simp add: fst_standardize_schema nulls_within_convert_types nulls_within_no_null wf_relabel)

lemma wf_clean_dataframe: "wf_dataframe df \<Longrightarrow> wf_dataframe (fst (clean_dataframe df))"
  by (auto simp: fst_clean_dataframe wf_dataframe_def dropna_def drop_duplicates_def list_all_iff
      set_drop_duplicates_from)

lemma no_null_clean_dataframe: "\<forall>r\<in>set (rows (fst (clean_dataframe df))). Null \<notin> set r"
  by (simp add: fst_clean_dataframe dropna_def)

lemma map_of_add_metadata_Null:
  "map_of (add_metadata e fname i d) k = Some Null \<Longrightarrow> map_of d k = Some Null"
  by (auto simp: add_metadata_def Let_def update_conv' split: option.splits cell.splits if_splits)

lemma upload_file_completed:
  assumes "upload_file e fname content store = (Inr resp, store')"
  shows "\<exists>df. read_csv e content = Inr df \<and>
           ecommerce_data store' = ecommerce_data store @
             map (\<lambda>(i, d). add_metadata e fname i d)
               (enumerate 0
                 (map (to_dict (columns (fst (standardize_schema e (fst (clean_dataframe df))))))
                    (rows (fst (standardize_schema e (fst (clean_dataframe df))))))) \<and>
           insert_many_error e
             (map (\<lambda>(i, d). add_metadata e fname i d)
               (enumerate 0
                 (map (to_dict (columns (fst (standardize_schema e (fst (clean_dataframe df))))))
                    (rows (fst (standardize_schema e (fst (clean_dataframe df)))))))) = None"
  using assms
  by (auto simp: upload_file_def upload_failed_def store_processed_data_def Let_def
      split: if_splits sum.splits prod.splits http_exception.splits option.splits)

lemma underscore_notin_normalize_name: "CHR ''_'' \<notin> set (normalize_name s)"
  by (simp add: normalize_name_def)

lemma rename_column_neq_total_price:
  assumes "CHR ''_'' \<notin> set x"
  shows "rename_column x \<noteq> ''total_price''"
proof (cases "map_of column_mappings x")
  case None
  with assms show ?thesis
    by (auto simp: rename_column_def)
next
  case (Some v)
  then have "(x, v) \<in> set column_mappings"
    by (rule map_of_SomeD)
  then have "v \<noteq> ''total_price''"
    by (auto simp: column_mappings_def)
  with Some show ?thesis
    by (simp add: rename_column_def)
qed

lemma total_price_notin_normalized:
  "''total_price'' \<notin> set (map (rename_column \<circ> normalize_name) cols)"
proof
  assume "''total_price'' \<in> set (map (rename_column \<circ> normalize_name) cols)"
  then obtain c where "rename_column (normalize_name c) = ''total_price''"
    by auto
  then show False
    using rename_column_neq_total_price [OF underscore_notin_normalize_name, of c] by simp
qed

lemma map2_map_same: "map2 f xs (map g xs) = map (\<lambda>x. f x (g x)) xs"
  by (induction xs) auto

lemma count_list_one_mem: "count_list xs k = 1 \<Longrightarrow> k \<in> set xs"
  using count_list_0_iff [of xs k] by auto

lemma getitem_once:
  "count_list (columns df) c = 1 \<Longrightarrow>
   getitem df c = Series (map (\<lambda>r. cell_at (columns df) r c) (rows df))"
  by (simp add: getitem_def)

lemma priced_setitem_other:
  assumes "priced df" and "c \<in> set (columns df)"
    and "c \<noteq> ''quantity''" and "c \<noteq> ''unit_price''" and "c \<noteq> ''total_price''"
  shows "priced (setitem df c vals)"
proof -
  have "cell_at (columns df) r' ''total_price'' =
          cell_mul (cell_at (columns df) r' ''quantity'') (cell_at (columns df) r' ''unit_price'')"
    if "r' \<in> set (rows (setitem df c vals))" for r'
    using that
  proof (cases rule: rows_setitem_cases)
    case (1 r v)
    then show ?thesis
      using assms by (simp add: cell_at_replace_other priced_def)
  next
    case (2 r v)
    then show ?thesis
      using assms by simp
  qed
  then show ?thesis
    using assms by (simp add: priced_def columns_setitem)
qed

lemma priced_setitem_total_price:
  assumes wf: "wf_dataframe df"
    and q: "count_list (columns df) ''quantity'' = 1"
    and u: "count_list (columns df) ''unit_price'' = 1"
    and tp: "''total_price'' \<notin> set (columns df)"
  shows "priced (setitem df ''total_price''
           (map (\<lambda>r. cell_mul (cell_at (columns df) r ''quantity'')
                               (cell_at (columns df) r ''unit_price'')) (rows df)))"
proof -
  have len: "length r = length (columns df)" if "r \<in> set (rows df)" for r
    using wf that by (simp add: wf_dataframe_def list_all_iff)
  have qm: "''quantity'' \<in> set (columns df)" and um: "''unit_price'' \<in> set (columns df)"
    using q u by (auto intro: count_list_one_mem)
  show ?thesis
    using tp q u qm um
    by (auto simp: priced_def setitem_def map2_map_same count_list_0_iff
        cell_at_append_old cell_at_append_new len)
qed

lemma setitem_existing_columns: "c \<in> set (columns df) \<Longrightarrow> columns (setitem df c vals) = columns df"
  by (simp add: setitem_def)

lemma priced_convert_types:
  assumes wf: "wf_dataframe df"
    and q: "count_list (columns df) ''quantity'' = 1"
    and u: "count_list (columns df) ''unit_price'' = 1"
    and tp: "''total_price'' \<notin> set (columns df)"
  shows "priced (fst (convert_types e df))"
proof -
  let ?cols = "columns df"
  define df1 where "df1 = setitem df ''quantity''
    (map (to_numeric e) (map (\<lambda>r. cell_at ?cols r ''quantity'') (rows df)))"
  define df2 where "df2 = setitem df1 ''unit_price''
    (map (to_numeric e) (map (\<lambda>r. cell_at (columns df1) r ''unit_price'') (rows df1)))"
  define df3 where "df3 = setitem df2 ''total_price''
    (map (\<lambda>r. cell_mul (cell_at (columns df2) r ''quantity'')
                        (cell_at (columns df2) r ''unit_price'')) (rows df2))"
  have c1: "columns df1 = ?cols"
    unfolding df1_def using q by (simp add: setitem_existing_columns count_list_one_mem)
  have c2: "columns df2 = ?cols"
    unfolding df2_def using u c1 by (simp add: setitem_existing_columns count_list_one_mem)
  have wf2: "wf_dataframe df2"
    unfolding df2_def df1_def using wf by (intro wf_setitem)
  have p3: "priced df3"
    unfolding df3_def using wf2 q u tp c2 by (intro priced_setitem_total_price) simp_all
  have g1: "getitem df ''quantity'' = Series (map (\<lambda>r. cell_at ?cols r ''quantity'') (rows df))"
    using q by (rule getitem_once)
  have g2: "getitem df1 ''unit_price'' =
      Series (map (\<lambda>r. cell_at (columns df1) r ''unit_price'') (rows df1))"
    using u c1 by (intro getitem_once) simp
  have res: "fst (convert_types e df) =
      (if ''order_date'' \<in> set (columns df3)
       then (case getitem df3 ''order_date'' of
               Series d \<Rightarrow> setitem df3 ''order_date'' (map (to_datetime e) d)
             | _ \<Rightarrow> df3)
       else df3)"
    using tp c2 g1 g2 unfolding df3_def df2_def df1_def
    by (simp add: convert_types_def Let_def split: selection.splits)
  show ?thesis
    unfolding res using p3
    by (auto split: selection.splits intro: priced_setitem_other)
qed

lemma priced_record:
  assumes "priced df" and "wf_dataframe df" and "r \<in> set (rows df)"
  shows "\<exists>q u. map_of (add_metadata e fname i (to_dict (columns df) r)) ''quantity'' = Some q \<and>
               map_of (add_metadata e fname i (to_dict (columns df) r)) ''unit_price'' = Some u \<and>
               map_of (add_metadata e fname i (to_dict (columns df) r)) ''total_price'' =
                 Some (cell_mul q u)"
proof -
  have len: "length r = length (columns df)"
    using assms by (simp add: wf_dataframe_def list_all_iff)
  have keep: "map_of (add_metadata e fname i d) k = map_of d k"
    if "k \<noteq> ''_id''" "k \<noteq> ''source_file''" "k \<noteq> ''processed_at''" "k \<noteq> ''order_date''"
    for d :: "'a document" and k
    using that
    by (auto simp: add_metadata_def Let_def update_conv' split: option.splits cell.splits)
  show ?thesis
    using assms
    by (simp add: keep map_of_to_dict_once [OF len] priced_def)
qed

lemma getitem_Series_mem: "getitem df c = Series q \<Longrightarrow> c \<in> set (columns df)"
  by (auto simp: getitem_def count_list_0_iff split: if_splits)

lemma cells_replace_other:
  "length rs = length vs \<Longrightarrow> k \<noteq> c \<Longrightarrow>
   map (\<lambda>r. cell_at cols r k)
     (map2 (\<lambda>r v. map2 (\<lambda>name x. if name = c then v else x) cols r) rs vs) =
   map (\<lambda>r. cell_at cols r k) rs"
  by (induction rs vs rule: list_induct2) (simp_all add: cell_at_replace_other)

lemma cells_setitem_other:
  "c \<in> set (columns df) \<Longrightarrow> k \<noteq> c \<Longrightarrow> length vals = length (rows df) \<Longrightarrow>
   map (\<lambda>r. cell_at (columns df) r k) (rows (setitem df c vals)) =
   map (\<lambda>r. cell_at (columns df) r k) (rows df)"
  using cells_replace_other [of "rows df" vals k c "columns df"]
  by (simp add: setitem_def)

lemma setitem_Series_columns:
  assumes "getitem df c = Series q"
  shows "columns (setitem df c (map f q)) = columns df"
  using getitem_Series_mem [OF assms] by (simp add: setitem_existing_columns)

lemma setitem_Series_keeps:
  assumes "getitem df c = Series q" and "k \<noteq> c"
  shows "map (\<lambda>r. cell_at (columns df) r k) (rows (setitem df c (map f q))) =
         map (\<lambda>r. cell_at (columns df) r k) (rows df)"
  using assms getitem_Series_mem [OF assms(1)] getitem_Series_length [OF assms(1)]
  by (simp add: cells_setitem_other)

lemma convert_types_keeps_total_price:
  assumes tp: "''total_price'' \<in> set (columns df)"
  shows "columns (fst (convert_types e df)) = columns df \<and>
         map (\<lambda>r. cell_at (columns df) r ''total_price'') (rows (fst (convert_types e df))) =
         map (\<lambda>r. cell_at (columns df) r ''total_price'') (rows df)"
proof (cases "getitem df ''quantity''")
  case KeyError
  then show ?thesis by (simp add: convert_types_def)
next
  case Frame
  then show ?thesis by (simp add: convert_types_def)
next
  case (Series q)
  define df1 where "df1 = setitem df ''quantity'' (map (to_numeric e) q)"
  have k1: "columns df1 = columns df"
    "map (\<lambda>r. cell_at (columns df) r ''total_price'') (rows df1) =
     map (\<lambda>r. cell_at (columns df) r ''total_price'') (rows df)"
    unfolding df1_def by (simp_all add: setitem_Series_keeps [OF Series] setitem_Series_columns [OF Series])
  show ?thesis
  proof (cases "getitem df1 ''unit_price''")
    case KeyError
    then show ?thesis using Series k1 by (simp add: convert_types_def df1_def [symmetric])
  next
    case Frame
    then show ?thesis using Series k1 by (simp add: convert_types_def df1_def [symmetric])
  next
    case p: (Series p)
    define df2 where "df2 = setitem df1 ''unit_price'' (map (to_numeric e) p)"
    have k2: "columns df2 = columns df"
      "map (\<lambda>r. cell_at (columns df) r ''total_price'') (rows df2) =
       map (\<lambda>r. cell_at (columns df) r ''total_price'') (rows df)"
      unfolding df2_def
      using setitem_Series_keeps [OF p, of "''total_price''" "to_numeric e"]
        setitem_Series_columns [OF p, of "to_numeric e"] k1
      by simp_all
    have res: "fst (convert_types e df) =
      (if ''order_date'' \<in> set (columns df2)
       then (case getitem df2 ''order_date'' of
               Series d \<Rightarrow> setitem df2 ''order_date'' (map (to_datetime e) d)
             | _ \<Rightarrow> df2)
       else df2)"
      using Series p tp k2(1)
      by (simp add: convert_types_def Let_def df1_def [symmetric] df2_def [symmetric]
          split: selection.splits)
    show ?thesis
    proof (cases "getitem df2 ''order_date''")
      case d: (Series d)
      show ?thesis
        unfolding res
        using d k2 setitem_Series_keeps [OF d, of "''total_price''" "to_datetime e"]
          setitem_Series_columns [OF d, of "to_datetime e"]
        by simp
    qed (use res k2 in simp_all)
  qed
qed

lemma stored_record_cases:
  assumes "d \<in> set (map (\<lambda>(i, d). add_metadata e fname i d)
                       (enumerate 0 (map (to_dict (columns df)) (rows df))))"
  obtains i r where "r \<in> set (rows df)" and "d = add_metadata e fname i (to_dict (columns df) r)"
proof -
  from assms obtain i where "i < length (rows df)"
    and "d = add_metadata e fname i (to_dict (columns df) (rows df ! i))"
    by (auto simp: in_set_enumerate_eq)
  then show ?thesis
    using that [of "rows df ! i" i] by simp
qed

section \<open>Properties of the aggregation pipelines\<close>

lemma of_char_digits:
  "map (\<lambda>d. of_char (digit_char d) :: nat) [0, 1, 2, 3, 4, 5, 6, 7, 8, 9] =
   [48, 49, 50, 51, 52, 53, 54, 55, 56, 57]"
  by code_simp

lemma less_10_cases:
  "(d::nat) < 10 \<Longrightarrow> d \<in> set [0, 1, 2, 3, 4, 5, 6, 7, 8, 9]"
  by (simp add: numeral_eq_Suc less_Suc_eq) 

lemma of_char_digit_char: "d < 10 \<Longrightarrow> of_char (digit_char d) = (48 + d :: nat)"
proof -
  assume "d < 10"
  then have "d \<in> set [0, 1, 2, 3, 4, 5, 6, 7, 8, 9]"
    by (rule less_10_cases)
  moreover have "\<forall>x \<in> set [0, 1, 2, 3, 4, 5, 6, 7, 8, 9]. of_char (digit_char x) = (48 + x :: nat)"
    using of_char_digits by simp
  ultimately show ?thesis
    by blast
qed

lemma digits_less:
  fixes a b c d :: nat
  assumes "c < 10" and "d < 10"
  shows "(a < b \<or> a = b \<and> c < d) = (10 * a + c < 10 * b + d)"
  using assms by linarith

lemma digits_eq:
  fixes a b c d :: nat
  assumes "c < 10" and "d < 10"
  shows "(a = b \<and> c = d) = (10 * a + c = 10 * b + d)"
  using digits_less [OF assms, of a b] digits_less [OF assms(2) assms(1), of b a]
  by (cases a b rule: linorder_cases) auto

lemma div_mod_10_less:
  "((n::nat) div 10 < m div 10 \<or> n div 10 = m div 10 \<and> n mod 10 < m mod 10) = (n < m)"
  using digits_less [of "n mod 10" "m mod 10" "n div 10" "m div 10"] by simp

lemma div_mod_10_eq: "((n::nat) div 10 = m div 10 \<and> n mod 10 = m mod 10) = (n = m)"
  using digits_eq [of "n mod 10" "m mod 10" "n div 10" "m div 10"] by simp

lemma append_less_same_length:
  fixes xs ys :: "'a::linorder list"
  shows "length xs = length ys \<Longrightarrow> (xs @ us < ys @ vs) = (xs < ys \<or> xs = ys \<and> us < vs)"
  by (induction xs ys rule: list_induct2) auto

lemma length_pad [simp]: "length (pad k n) = k"
  by (induction k arbitrary: n) auto

lemma digit_char_less: "a < 10 \<Longrightarrow> b < 10 \<Longrightarrow> (digit_char a < digit_char b) = (a < b)"
  unfolding less_char_def by (simp add: of_char_digit_char)

lemma digit_char_eq:
  assumes "a < 10" and "b < 10"
  shows "(digit_char a = digit_char b) = (a = b)"
proof
  assume e: "digit_char a = digit_char b"
  have "48 + a = (of_char (digit_char a) :: nat)"
    using assms by (simp only: of_char_digit_char)
  also have "\<dots> = of_char (digit_char b)"
    by (simp only: e)
  also have "\<dots> = 48 + b"
    using assms by (simp only: of_char_digit_char)
  finally show "a = b"
    by simp
qed simp

lemma pad_order:
  "n < 10 ^ k \<Longrightarrow> m < 10 ^ k \<Longrightarrow>
   (pad k n < pad k m) = (n < m) \<and> (pad k n = pad k m) = (n = m)"
proof (induction k arbitrary: n m)
  case 0
  then show ?case by simp
next
  case (Suc k)
  have n: "n div 10 < 10 ^ k" and m: "m div 10 < 10 ^ k"
    using Suc.prems by (simp_all add: less_mult_imp_div_less mult.commute)
  have ih: "(pad k (n div 10) < pad k (m div 10)) = (n div 10 < m div 10)"
    "(pad k (n div 10) = pad k (m div 10)) = (n div 10 = m div 10)"
    using Suc.IH [OF n m] by simp_all
  show ?case
    by (simp add: append_less_same_length ih digit_char_less digit_char_eq
        div_mod_10_less div_mod_10_eq)
qed

lemma date_to_string_less:
  assumes "valid_day a" and "valid_day b"
  shows "(date_to_string a < date_to_string b) = (a < b)"
proof -
  obtain y m d where a: "a = (y, m, d)" by (cases a) auto
  obtain y' m' d' where b: "b = (y', m', d')" by (cases b) auto
  have y: "y < 10 ^ 4" "y' < 10 ^ 4" and m: "m < 10 ^ 2" "m' < 10 ^ 2"
    and d: "d < 10 ^ 2" "d' < 10 ^ 2"
    using assms by (simp_all add: valid_day_def a b)
  have "date_to_string a = pad 4 y @ ''-'' @ pad 2 m @ ''-'' @ pad 2 d"
    "date_to_string b = pad 4 y' @ ''-'' @ pad 2 m' @ ''-'' @ pad 2 d'"
    by (simp_all only: a b date_to_string_def prod.case)
  then show ?thesis
    using pad_order [OF y] pad_order [OF m] pad_order [OF d]
    by (simp only: append_less_same_length length_pad a b less_prod_simp
        append_Cons append_Nil Cons_less_Cons simp_thms) auto
qed

lemma group_by_keys: "fst ` set (group_by key ds) = key ` set ds"
proof (induction key ds rule: group_by.induct)
  case (1 key)
  then show ?case by simp
next
  case (2 key d ds)
  then show ?case by auto
qed

lemma distinct_group_by: "distinct (map fst (group_by key ds))"
proof (induction key ds rule: group_by.induct)
  case (1 key)
  then show ?case by simp
next
  case (2 key d ds)
  have "key d \<notin> fst ` set (group_by key (filter (\<lambda>x. key x \<noteq> key d) ds))"
    by (auto simp: group_by_keys)
  with 2 show ?case by simp
qed

lemma group_by_members:
  "(k, g) \<in> set (group_by key ds) \<Longrightarrow> g = filter (\<lambda>d. key d = k) ds \<and> g \<noteq> []"
proof (induction key ds arbitrary: k g rule: group_by.induct)
  case (1 key)
  then show ?case by simp
next
  case (2 key d ds)
  show ?case
  proof (cases "(k, g) = (key d, d # filter (\<lambda>x. key x = key d) ds)")
    case True
    then show ?thesis by auto
  next
    case False
    with "2.prems" have mem: "(k, g) \<in> set (group_by key (filter (\<lambda>x. key x \<noteq> key d) ds))"
      by auto
    from "2.IH" [OF this]
    have g: "g = filter (\<lambda>x. key x = k) (filter (\<lambda>x. key x \<noteq> key d) ds)" and ne: "g \<noteq> []"
      by blast+
    from mem have "k \<in> key ` set (filter (\<lambda>x. key x \<noteq> key d) ds)"
      using group_by_keys [of key "filter (\<lambda>x. key x \<noteq> key d) ds"] by force
    then have kd: "k \<noteq> key d"
      by auto
    have "filter (\<lambda>x. key x = k) (filter (\<lambda>x. key x \<noteq> key d) ds) = filter (\<lambda>x. key x = k) ds"
      using kd by (auto intro: filter_cong)
    with g ne kd show ?thesis
      by auto
  qed
qed

lemma sorted_sort_desc: "sorted_wrt (\<lambda>a b. f b \<le> f a) (sort_desc f xs)"
proof -
  have "sorted_wrt (\<lambda>a b. f a \<le> f b) (sort_key f xs)"
    using sorted_sort_key [of f xs] by (simp add: sorted_wrt_map)
  then show ?thesis
    by (simp add: sort_desc_def sorted_wrt_rev)
qed

lemma set_sort_desc [simp]: "set (sort_desc f xs) = set xs"
  by (simp add: sort_desc_def)

lemma distinct_map_sort_key: "distinct (map f (sort_key f xs)) = distinct (map f xs)"
  by (simp add: distinct_map)

lemma strict_sorted_sort_key:
  "distinct (map f xs) \<Longrightarrow> sorted_wrt (\<lambda>a b. f a < f b) (sort_key f xs)"
proof -
  assume "distinct (map f xs)"
  then have "sorted_wrt (<) (map f (sort_key f xs))"
    by (simp add: strict_sorted_iff distinct_map_sort_key)
  then show ?thesis
    by (simp add: sorted_wrt_map)
qed

lemma top_product_items_map:
  "top_product_items gs = Inr ps \<Longrightarrow>
   map product_total_revenue ps = map group_total_revenue gs \<and>
   map (\<lambda>p. (Some (product_id p), Some (product_name p))) ps =
     map (\<lambda>g. (group_product_id g, group_product_name g)) gs"
proof (induction gs arbitrary: ps)
  case Nil
  then show ?case by simp
next
  case (Cons g gs)
  then show ?case
    by (auto simp: top_product_item_def split: sum.splits option.splits)
qed

lemma day_keys_fst:
  "day_keys e ds = Inr ks \<Longrightarrow>
   map snd ks = ds \<and>
   (\<forall>k\<in>fst ` set ks. k = None \<or> (\<exists>ymd. valid_day ymd \<and> k = Some (date_to_string ymd)))"
proof (induction ds arbitrary: ks)
  case Nil
  then show ?case by simp
next
  case (Cons d ds)
  then show ?case
    by (fastforce simp: day_key_def split: sum.splits option.splits cell.splits if_splits)
qed

lemma top_product_items_members:
  "top_product_items gs = Inr ps \<Longrightarrow> p \<in> set ps \<Longrightarrow>
   \<exists>g\<in>set gs. group_product_id g = Some (product_id p) \<and>
     group_product_name g = Some (product_name p) \<and>
     group_total_revenue g = product_total_revenue p"
proof (induction gs arbitrary: ps)
  case Nil
  then show ?case by simp
next
  case (Cons g gs)
  then show ?case
    by (fastforce simp: top_product_item_def split: sum.splits option.splits)
qed

lemma length_top_product_items: "top_product_items gs = Inr ps \<Longrightarrow> length ps = length gs"
  by (induction gs arbitrary: ps) (auto split: sum.splits)

lemma top_products_pipeline_props:
  "length (top_products_pipeline ds) \<le> 5"
  "sorted_wrt (\<lambda>a b. rank (group_total_revenue b) \<le> rank (group_total_revenue a))
     (top_products_pipeline ds)"
  "g \<in> set (top_products_pipeline ds) \<Longrightarrow>
     group_total_revenue g = mongo_sum ''total_price''
       (filter (\<lambda>d. product_key d = (group_product_id g, group_product_name g)) ds)"
proof -
  show "length (top_products_pipeline ds) \<le> 5"
    by (simp add: top_products_pipeline_def)
  show "sorted_wrt (\<lambda>a b. rank (group_total_revenue b) \<le> rank (group_total_revenue a))
     (top_products_pipeline ds)"
    unfolding top_products_pipeline_def
    by (intro sorted_wrt_take sorted_sort_desc)
  assume "g \<in> set (top_products_pipeline ds)"
  then have "g \<in> set (map (\<lambda>(k, g). \<lparr>group_product_id = fst k, group_product_name = snd k,
                         group_total_quantity = mongo_sum ''quantity'' g,
                         group_total_revenue = mongo_sum ''total_price'' g,
                         group_order_count = int (length g)\<rparr>)
            (group_by product_key ds))"
    unfolding top_products_pipeline_def by (auto dest: in_set_takeD)
  then obtain k grp where "(k, grp) \<in> set (group_by product_key ds)"
    and g: "g = \<lparr>group_product_id = fst k, group_product_name = snd k,
                 group_total_quantity = mongo_sum ''quantity'' grp,
                 group_total_revenue = mongo_sum ''total_price'' grp,
                 group_order_count = int (length grp)\<rparr>"
    by auto
  then have "grp = filter (\<lambda>d. product_key d = k) ds"
    by (auto dest: group_by_members)
  then show "group_total_revenue g = mongo_sum ''total_price''
       (filter (\<lambda>d. product_key d = (group_product_id g, group_product_name g)) ds)"
    by (simp add: g)
qed

lemma top_customers_pipeline_props:
  "length (top_customers_pipeline ds) \<le> 5"
  "sorted_wrt (\<lambda>a b. rank (total_spent b) \<le> rank (total_spent a)) (top_customers_pipeline ds)"
  "c \<in> set (top_customers_pipeline ds) \<Longrightarrow>
     total_spent c = mongo_sum ''total_price'' (filter (\<lambda>d. customer_key d = customer_id c) ds)"
proof -
  show "length (top_customers_pipeline ds) \<le> 5"
    by (simp add: top_customers_pipeline_def)
  show "sorted_wrt (\<lambda>a b. rank (total_spent b) \<le> rank (total_spent a)) (top_customers_pipeline ds)"
    unfolding top_customers_pipeline_def
    by (intro sorted_wrt_take sorted_sort_desc)
  assume "c \<in> set (top_customers_pipeline ds)"
  then have "c \<in> set (map (\<lambda>(k, g). \<lparr>customer_id = k, total_spent = mongo_sum ''total_price'' g,
                         customer_order_count = int (length g)\<rparr>)
            (group_by customer_key ds))"
    unfolding top_customers_pipeline_def by (auto dest: in_set_takeD)
  then obtain k grp where "(k, grp) \<in> set (group_by customer_key ds)"
    and c: "c = \<lparr>customer_id = k, total_spent = mongo_sum ''total_price'' grp,
                 customer_order_count = int (length grp)\<rparr>"
    by auto
  then have "grp = filter (\<lambda>d. customer_key d = k) ds"
    by (auto dest: group_by_members)
  then show "total_spent c = mongo_sum ''total_price''
       (filter (\<lambda>d. customer_key d = customer_id c) ds)"
    by (simp add: c)
qed

lemma daily_revenue_pipeline_props:
  assumes "daily_revenue_pipeline e ds = Inr daily"
  shows "length daily \<le> 30"
    and "sorted_wrt (\<lambda>a b. date a < date b) daily"
    and "\<forall>x\<in>set daily. date x = None \<or>
           (\<exists>ymd. valid_day ymd \<and> date x = Some (date_to_string ymd))"
proof -
  from assms obtain ks where ks: "day_keys e ds = Inr ks"
    and daily: "daily = take 30 (sort_key date
            (map (\<lambda>(k, g). \<lparr>date = k, revenue = mongo_sum ''total_price'' (map snd g),
                              orders = int (length g)\<rparr>)
                 (group_by fst ks)))"
    by (auto simp: daily_revenue_pipeline_def split: sum.splits)
  let ?rows = "map (\<lambda>(k, g). \<lparr>date = k, revenue = mongo_sum ''total_price'' (map snd g),
                              orders = int (length g)\<rparr>)
                 (group_by fst ks)"
  have dates: "map date ?rows = map fst (group_by fst ks)"
    by (simp add: case_prod_unfold comp_def)
  show "length daily \<le> 30"
    by (simp add: daily)
  have "distinct (map date ?rows)"
    unfolding dates by (rule distinct_group_by)
  then show "sorted_wrt (\<lambda>a b. date a < date b) daily"
    unfolding daily by (intro sorted_wrt_take strict_sorted_sort_key)
  have "date x \<in> fst ` set ks" if "x \<in> set daily" for x
  proof -
    from that have "x \<in> set ?rows"
      unfolding daily by (auto dest: in_set_takeD)
    then have "date x \<in> date ` set ?rows"
      by (rule imageI)
    then have "date x \<in> set (map date ?rows)"
      by (simp only: set_map)
    then show ?thesis
      unfolding dates using group_by_keys [of fst ks] by auto
  qed
  then show "\<forall>x\<in>set daily. date x = None \<or>
           (\<exists>ymd. valid_day ymd \<and> date x = Some (date_to_string ymd))"
    using day_keys_fst [OF ks] by blast
qed

section \<open>Properties of the upload\<close>

text \<open>
  Claim C3. When an upload completes, the counts it returns add up to the number of data
  rows parsed from the CSV, before any cleaning or schema processing; the log entry it
  persists is marked completed and carries the same two counts.
\<close>

theorem upload_counts_add_up:
  assumes "upload_file e fname content store = (Inr resp, store')"
  shows "\<exists>df. read_csv e content = Inr df \<and>
     response_records_processed resp + response_records_failed resp = len df \<and>
     processing_logs store' \<noteq> [] \<and>
     status (last (processing_logs store')) = ''completed'' \<and>
     records_processed (last (processing_logs store')) = response_records_processed resp \<and>
     records_failed (last (processing_logs store')) = response_records_failed resp"
  using assms
  by (auto simp: upload_file_def upload_failed_def Let_def
      split: if_splits sum.splits prod.splits http_exception.splits)

text \<open>Three rows parsed, one a duplicate: two stored, one failed.\<close>

theorem upload_counts_add_up_witness:
  "fst (upload_file (demo_env orders_csv orders_df) ''orders.csv'' orders_csv empty_db) =
     Inr \<lparr>message = ''File processed successfully'',
          response_records_processed = 2, response_records_failed = 1,
          response_errors = [''Removed 1 duplicate records''],
          response_processing_time = 0\<rparr> \<and>
   len orders_df = 3 \<and>
   (\<exists>df. read_csv (demo_env orders_csv orders_df) orders_csv = Inr df \<and> 2 + 1 = len df)"
proof -
  let ?u = "upload_file (demo_env orders_csv orders_df) ''orders.csv'' orders_csv empty_db"
  let ?r = "\<lparr>message = ''File processed successfully'',
          response_records_processed = 2, response_records_failed = 1,
          response_errors = [''Removed 1 duplicate records''],
          response_processing_time = (0::int)\<rparr>"
  have ev: "fst ?u = Inr ?r"
    by code_simp
  then have "?u = (Inr ?r, snd ?u)"
    by (simp add: prod_eq_iff)
  from upload_counts_add_up [OF this]
  have "\<exists>df. read_csv (demo_env orders_csv orders_df) orders_csv = Inr df \<and> 2 + 1 = len df"
    by auto
  moreover have "len orders_df = 3"
    by code_simp
  ultimately show ?thesis
    using ev by simp
qed

text \<open>
  Claim C6. A file name that does not end in the exact suffix \<^verbatim>\<open>.csv\<close> is refused with
  status 400 before anything is read, and the store (records and logs) is left as it was;
  a file name that ends in \<^verbatim>\<open>.csv\<close> is never answered with status 400.
\<close>

theorem upload_rejects_other_suffix:
  "(\<not> endswith fname ''.csv'' \<longrightarrow>
      upload_file e fname content store =
        (Inl (HTTPException 400 ''Only CSV files are supported''), store)) \<and>
   (endswith fname ''.csv'' \<longrightarrow>
      (\<forall>detail. fst (upload_file e fname content store) \<noteq> Inl (HTTPException 400 detail)))"
  by (auto simp: upload_file_def upload_failed_def Let_def
      split: if_splits sum.splits prod.splits http_exception.splits)

text \<open>
  A \<^verbatim>\<open>.txt\<close> name and an upper-case \<^verbatim>\<open>.CSV\<close> name are refused; a \<^verbatim>\<open>.csv\<close> name is not.
\<close>

theorem upload_rejects_other_suffix_witness:
  "\<not> endswith ''test.txt'' ''.csv'' \<and>
   upload_file (demo_env orders_csv orders_df) ''test.txt'' orders_csv empty_db =
     (Inl (HTTPException 400 ''Only CSV files are supported''), empty_db) \<and>
   \<not> endswith ''orders.CSV'' ''.csv'' \<and>
   upload_file (demo_env orders_csv orders_df) ''orders.CSV'' orders_csv empty_db =
     (Inl (HTTPException 400 ''Only CSV files are supported''), empty_db) \<and>
   endswith ''orders.csv'' ''.csv'' \<and>
   fst (upload_file (demo_env orders_csv orders_df) ''orders.csv'' orders_csv empty_db)
     \<noteq> Inl (HTTPException 400 ''Only CSV files are supported'')"
proof -
  have a: "\<not> endswith ''test.txt'' ''.csv''" and b: "\<not> endswith ''orders.CSV'' ''.csv''"
    and c: "endswith ''orders.csv'' ''.csv''"
    by (simp_all add: endswith_def)
  show ?thesis
    using a b c
      upload_rejects_other_suffix
        [of "''test.txt''" "demo_env orders_csv orders_df" orders_csv empty_db]
      upload_rejects_other_suffix
        [of "''orders.CSV''" "demo_env orders_csv orders_df" orders_csv empty_db]
      upload_rejects_other_suffix
        [of "''orders.csv''" "demo_env orders_csv orders_df" orders_csv empty_db]
    by blast
qed

text \<open>
  Claim C9. When the content of an accepted upload fails to decode or to parse, the
  exception is caught: a log entry with status failed, whose only error is the text of the
  exception, is persisted (nothing else in the store changes), and the caller gets a 500
  that carries the same text.
\<close>

theorem upload_parse_failure_logged:
  assumes "endswith fname ''.csv''" and "read_csv e content = Inl msg"
  shows "upload_file e fname content store =
     (Inl (HTTPException 500 (''Error processing file: '' @ msg)),
      store\<lparr>processing_logs := processing_logs store @
        [\<lparr>log_id = log_uuid e, filename = fname, status = ''failed'',
          records_processed = 0, records_failed = 0, errors = [msg],
          timestamp = now e, processing_time = Some (elapsed e)\<rparr>]\<rparr>)"
  using assms by (simp add: upload_file_def upload_failed_def Let_def)

theorem upload_parse_failure_logged_witness:
  "endswith ''orders.csv'' ''.csv'' \<and>
   read_csv (demo_env orders_csv orders_df) ''\<newline>'' = Inl ''No columns to parse from file'' \<and>
   upload_file (demo_env orders_csv orders_df) ''orders.csv'' ''\<newline>'' empty_db =
     (Inl (HTTPException 500 ''Error processing file: No columns to parse from file''),
      \<lparr>ecommerce_data = [],
       processing_logs =
        [\<lparr>log_id = ''log-0'', filename = ''orders.csv'', status = ''failed'',
          records_processed = 0, records_failed = 0,
          errors = [''No columns to parse from file''],
          timestamp = ''2024-01-01T00:00:00+00:00'', processing_time = Some 0\<rparr>]\<rparr>)"
proof -
  have a: "endswith ''orders.csv'' ''.csv''"
    by (simp add: endswith_def)
  have b: "read_csv (demo_env orders_csv orders_df) ''\<newline>'' = Inl ''No columns to parse from file''"
    by (simp add: demo_env_def orders_csv_def)
  show ?thesis
    using a b upload_parse_failure_logged [OF a b, of empty_db]
    by (simp add: demo_env_def empty_db_def)
qed

text \<open>
  Claim C2, on the code. A CSV with none of the required columns: the diagnostic names
  the four missing columns, and the upload completes, but the one cleaned row is stored and
  counted as processed, none as failed. \<^verbatim>\<open>standardize_schema\<close> returns the frame with
  its rows on the missing-column path, and \<^verbatim>\<open>upload_file\<close> stores what it is handed.
\<close>

theorem missing_required_columns_rows_stored:
  "fst (upload_file (demo_env unmapped_csv unmapped_df) ''orders.csv'' unmapped_csv empty_db) =
     Inr \<lparr>message = ''File processed successfully'',
          response_records_processed = 1, response_records_failed = 0,
          response_errors =
            [''Missing required columns: ['' @ [CHR 0x27] @ ''order_id'' @ [CHR 0x27] @ '', '' @
             [CHR 0x27] @ ''product_id'' @ [CHR 0x27] @ '', '' @
             [CHR 0x27] @ ''quantity'' @ [CHR 0x27] @ '', '' @
             [CHR 0x27] @ ''unit_price'' @ [CHR 0x27] @ '']''],
          response_processing_time = 0\<rparr> \<and>
   ecommerce_data
     (snd (upload_file (demo_env unmapped_csv unmapped_df) ''orders.csv'' unmapped_csv empty_db)) =
     [[(''a'', Num 1), (''b'', Num 2), (''_id'', Str ''id-0''),
       (''source_file'', Str ''orders.csv''),
       (''processed_at'', Dt ''2024-01-01T00:00:00+00:00'')]]"
  by code_simp

section \<open>Missing values and the derived price in the stored records\<close>

text \<open>
  Claim C1, as the code has it. When an upload completes, the cleaned frame has no row
  with a missing cell, one record is stored for each of its rows, and a stored record holds
  a missing value only under \<^verbatim>\<open>quantity\<close>, \<^verbatim>\<open>unit_price\<close>, \<^verbatim>\<open>total_price\<close> or \<^verbatim>\<open>order_date\<close>:
  the columns the coercion writes after the cleaner has run. With a driver that refuses a
  document whose \<^verbatim>\<open>order_date\<close> is missing (a NaT, which the real driver cannot encode),
  \<^verbatim>\<open>order_date\<close> leaves that list: a completed upload stores a missing value only under
  \<^verbatim>\<open>quantity\<close>, \<^verbatim>\<open>unit_price\<close> or \<^verbatim>\<open>total_price\<close>. (The parsed frame is rectangular, as
  every pandas frame is.)
\<close>

theorem stored_nulls_come_from_coercion:
  assumes up: "upload_file e fname content store = (Inr resp, store')"
    and rd: "read_csv e content = Inr df"
    and wf: "wf_dataframe df"
  shows "(\<forall>r\<in>set (rows (fst (clean_dataframe df))). Null \<notin> set r) \<and>
     (\<exists>new. ecommerce_data store' = ecommerce_data store @ new \<and>
        length new = length (rows (fst (clean_dataframe df))) \<and>
        (\<forall>d\<in>set new. \<forall>k. map_of d k = Some Null \<longrightarrow>
           k \<in> {''quantity'', ''unit_price'', ''total_price'', ''order_date''}) \<and>
        ((\<forall>ds. list_ex (\<lambda>d. map_of d ''order_date'' = Some Null) ds \<longrightarrow>
                insert_many_error e ds \<noteq> None) \<longrightarrow>
         (\<forall>d\<in>set new. \<forall>k. map_of d k = Some Null \<longrightarrow>
            k \<in> {''quantity'', ''unit_price'', ''total_price''})))"
proof -
  let ?S = "{''quantity'', ''unit_price'', ''total_price'', ''order_date''}"
  let ?c = "fst (clean_dataframe df)"
  let ?s = "fst (standardize_schema e ?c)"
  let ?new = "map (\<lambda>(i, d). add_metadata e fname i d)
                (enumerate 0 (map (to_dict (columns ?s)) (rows ?s)))"
  have clean: "\<forall>r\<in>set (rows ?c). Null \<notin> set r"
    by (rule no_null_clean_dataframe)
  have wfc: "wf_dataframe ?c"
    using wf by (rule wf_clean_dataframe)
  have inv: "nulls_within ?S ?s"
    using wfc clean by (rule nulls_within_standardize_schema)
  have stored: "ecommerce_data store' = ecommerce_data store @ ?new"
    using upload_file_completed [OF up] rd by simp
  have accepted: "insert_many_error e ?new = None"
    using upload_file_completed [OF up] rd by simp
  have len: "length ?new = length (rows ?c)"
    by (simp add: length_rows_standardize_schema)
  have four: "k \<in> ?S" if d: "d \<in> set ?new" and k: "map_of d k = Some Null" for d k
    using d
  proof (cases rule: stored_record_cases)
    case (1 i r)
    with k have "map_of (to_dict (columns ?s) r) k = Some Null"
      by (auto dest: map_of_add_metadata_Null)
    then have "(k, Null) \<in> set (zip (columns ?s) r)"
      by (rule map_of_to_dict_SomeD)
    with inv 1 show ?thesis
      unfolding nulls_within_def by blast
  qed
  have three: "k \<in> {''quantity'', ''unit_price'', ''total_price''}"
    if refuses: "\<forall>ds. list_ex (\<lambda>d. map_of d ''order_date'' = Some Null) ds \<longrightarrow>
                   insert_many_error e ds \<noteq> None"
      and d: "d \<in> set ?new" and k: "map_of d k = Some Null" for d k
  proof -
    have "k \<noteq> ''order_date''"
    proof
      assume "k = ''order_date''"
      with d k have "list_ex (\<lambda>d. map_of d ''order_date'' = Some Null) ?new"
        unfolding list_ex_iff by blast
      with refuses accepted show False
        by blast
    qed
    with four [OF d k] show ?thesis
      by blast
  qed
  have second: "\<exists>new. ecommerce_data store' = ecommerce_data store @ new \<and>
        length new = length (rows (fst (clean_dataframe df))) \<and>
        (\<forall>d\<in>set new. \<forall>k. map_of d k = Some Null \<longrightarrow>
           k \<in> {''quantity'', ''unit_price'', ''total_price'', ''order_date''}) \<and>
        ((\<forall>ds. list_ex (\<lambda>d. map_of d ''order_date'' = Some Null) ds \<longrightarrow>
                insert_many_error e ds \<noteq> None) \<longrightarrow>
         (\<forall>d\<in>set new. \<forall>k. map_of d k = Some Null \<longrightarrow>
            k \<in> {''quantity'', ''unit_price'', ''total_price''}))"
  proof (intro exI [of _ ?new] conjI)
    show "ecommerce_data store' = ecommerce_data store @ ?new"
      by (rule stored)
    show "length ?new = length (rows (fst (clean_dataframe df)))"
      by (rule len)
    show "\<forall>d\<in>set ?new. \<forall>k. map_of d k = Some Null \<longrightarrow>
           k \<in> {''quantity'', ''unit_price'', ''total_price'', ''order_date''}"
      using four by blast
    show "(\<forall>ds. list_ex (\<lambda>d. map_of d ''order_date'' = Some Null) ds \<longrightarrow>
                insert_many_error e ds \<noteq> None) \<longrightarrow>
         (\<forall>d\<in>set ?new. \<forall>k. map_of d k = Some Null \<longrightarrow>
            k \<in> {''quantity'', ''unit_price'', ''total_price''})"
      using three by blast
  qed
  show ?thesis
    using clean second by (rule conjI)
qed

text \<open>
  The row \<^verbatim>\<open>A1,P1,abc,2\<close> has no missing cell, so the cleaner keeps it; the coercion then
  turns the quantity \<^verbatim>\<open>abc\<close> into a missing value, and the record is stored with it. The
  driver of the example refuses a missing \<^verbatim>\<open>order_date\<close>.
\<close>

theorem stored_nulls_come_from_coercion_witness:
  "wf_dataframe bad_quantity_df \<and>
   read_csv (demo_env bad_quantity_csv bad_quantity_df) bad_quantity_csv = Inr bad_quantity_df \<and>
   fst (upload_file (demo_env bad_quantity_csv bad_quantity_df) ''orders.csv''
          bad_quantity_csv empty_db) =
     Inr \<lparr>message = ''File processed successfully'',
          response_records_processed = 1, response_records_failed = 0,
          response_errors = [], response_processing_time = 0\<rparr> \<and>
   (\<exists>new. ecommerce_data (snd (upload_file (demo_env bad_quantity_csv bad_quantity_df)
                ''orders.csv'' bad_quantity_csv empty_db)) = ecommerce_data empty_db @ new \<and>
      length new = length (rows (fst (clean_dataframe bad_quantity_df))) \<and>
      (\<forall>d\<in>set new. \<forall>k. map_of d k = Some Null \<longrightarrow>
         k \<in> {''quantity'', ''unit_price'', ''total_price''}))"
proof -
  let ?e = "demo_env bad_quantity_csv bad_quantity_df"
  let ?u = "upload_file ?e ''orders.csv'' bad_quantity_csv empty_db"
  let ?r = "\<lparr>message = ''File processed successfully'',
          response_records_processed = 1, response_records_failed = 0,
          response_errors = [], response_processing_time = (0::int)\<rparr>"
  have ev: "fst ?u = Inr ?r"
    by code_simp
  then have up: "?u = (Inr ?r, snd ?u)"
    by (simp add: prod_eq_iff)
  have rd: "read_csv ?e bad_quantity_csv = Inr bad_quantity_df"
    by (simp add: demo_env_def)
  have wf: "wf_dataframe bad_quantity_df"
    by (simp add: wf_dataframe_def bad_quantity_df_def)
  have refuses: "\<forall>ds. list_ex (\<lambda>d. map_of d ''order_date'' = Some Null) ds \<longrightarrow>
                   insert_many_error ?e ds \<noteq> None"
    by (simp add: demo_env_def demo_insert_many_error_def)
  show ?thesis
    using stored_nulls_come_from_coercion [OF up rd wf] ev rd wf refuses by blast
qed

text \<open>
  An order date that is no date becomes NaT in the coercion; the driver of the example
  refuses the document, so the upload fails with a 500, nothing is stored, and the failure
  is logged.
\<close>

lemma unparsed_date_upload_fails:
  "upload_file (demo_env bad_date_csv bad_date_df) ''orders.csv'' bad_date_csv empty_db =
     (Inl (HTTPException 500
        ''Error processing file: 500: Error storing data: NaTType does not support utcoffset''),
      \<lparr>ecommerce_data = [],
       processing_logs =
         [\<lparr>log_id = ''log-0'', filename = ''orders.csv'', status = ''failed'',
           records_processed = 0, records_failed = 0,
           errors = [''500: Error storing data: NaTType does not support utcoffset''],
           timestamp = ''2024-01-01T00:00:00+00:00'', processing_time = Some 0\<rparr>]\<rparr>)"
  by code_simp

text \<open>
  Claim C1 as stated fails: the upload of \<^verbatim>\<open>A1,P1,abc,2\<close> completes with one record
  processed, and the stored record has missing values under \<^verbatim>\<open>quantity\<close> and \<^verbatim>\<open>total_price\<close>.
\<close>

theorem unparsed_quantity_stored_as_null:
  "fst (upload_file (demo_env bad_quantity_csv bad_quantity_df) ''orders.csv''
          bad_quantity_csv empty_db) =
     Inr \<lparr>message = ''File processed successfully'',
          response_records_processed = 1, response_records_failed = 0,
          response_errors = [], response_processing_time = 0\<rparr> \<and>
   ecommerce_data (snd (upload_file (demo_env bad_quantity_csv bad_quantity_df) ''orders.csv''
          bad_quantity_csv empty_db)) =
     [[(''order_id'', Str ''A1''), (''product_id'', Str ''P1''), (''quantity'', Null),
       (''unit_price'', Num 2), (''total_price'', Null), (''_id'', Str ''id-0''),
       (''source_file'', Str ''orders.csv''),
       (''processed_at'', Dt ''2024-01-01T00:00:00+00:00'')]]"
  by code_simp

text \<open>
  Claim C4, as the code has it. When an upload completes and, after normalization, the
  four required columns are there and \<^verbatim>\<open>quantity\<close> and \<^verbatim>\<open>unit_price\<close> label one column
  each (so that the numeric conversion raises nothing), every stored record has a
  \<^verbatim>\<open>total_price\<close> equal to the product of its \<^verbatim>\<open>quantity\<close> and \<^verbatim>\<open>unit_price\<close>. The
  coercer computes \<^verbatim>\<open>total_price\<close> only when no column has that label: a frame that has
  one keeps its columns and the cells under that label. After normalization no column
  has that label, whatever the source called its columns.
\<close>

theorem total_price_is_product:
  assumes up: "upload_file e fname content store = (Inr resp, store')"
    and rd: "read_csv e content = Inr df"
    and wf: "wf_dataframe df"
    and req: "set required_columns \<subseteq> set (map (rename_column \<circ> normalize_name) (columns df))"
    and q: "count_list (map (rename_column \<circ> normalize_name) (columns df)) ''quantity'' = 1"
    and u: "count_list (map (rename_column \<circ> normalize_name) (columns df)) ''unit_price'' = 1"
  shows "(\<exists>new. ecommerce_data store' = ecommerce_data store @ new \<and>
           length new = length (rows (fst (clean_dataframe df))) \<and>
           (\<forall>d\<in>set new. \<exists>qty price.
              map_of d ''quantity'' = Some qty \<and> map_of d ''unit_price'' = Some price \<and>
              map_of d ''total_price'' = Some (cell_mul qty price))) \<and>
         ''total_price'' \<notin> set (map (rename_column \<circ> normalize_name) (columns df)) \<and>
         (\<forall>g. ''total_price'' \<in> set (columns g) \<longrightarrow>
              columns (fst (convert_types e g)) = columns g \<and>
              map (\<lambda>r. cell_at (columns g) r ''total_price'') (rows (fst (convert_types e g))) =
              map (\<lambda>r. cell_at (columns g) r ''total_price'') (rows g))"
proof -
  let ?c = "fst (clean_dataframe df)"
  let ?n = "?c\<lparr>columns := map (rename_column \<circ> normalize_name) (columns ?c)\<rparr>"
  let ?s = "fst (standardize_schema e ?c)"
  let ?new = "map (\<lambda>(i, d). add_metadata e fname i d)
                (enumerate 0 (map (to_dict (columns ?s)) (rows ?s)))"
  have cols: "columns ?c = columns df"
    by (simp add: fst_clean_dataframe dropna_def drop_duplicates_def)
  have wfn: "wf_dataframe ?n"
    using wf by (simp add: wf_relabel wf_clean_dataframe)
  have "filter (\<lambda>col. col \<notin> set (map (rename_column \<circ> normalize_name) (columns ?c)))
          required_columns = []"
    using req by (auto simp: cols filter_empty_conv)
  then have s: "?s = fst (convert_types e ?n)"
    by (simp add: fst_standardize_schema)
  have pr: "priced ?s"
    unfolding s using wfn q u total_price_notin_normalized [of "columns df"]
    by (intro priced_convert_types) (simp_all add: cols)
  have wfs: "wf_dataframe ?s"
    using wf by (simp add: wf_standardize_schema wf_clean_dataframe)
  have stored: "ecommerce_data store' = ecommerce_data store @ ?new"
    using upload_file_completed [OF up] rd by simp
  have len: "length ?new = length (rows ?c)"
    by (simp add: length_rows_standardize_schema)
  have "\<exists>qty price. map_of d ''quantity'' = Some qty \<and> map_of d ''unit_price'' = Some price \<and>
          map_of d ''total_price'' = Some (cell_mul qty price)"
    if "d \<in> set ?new" for d
    using that
  proof (cases rule: stored_record_cases)
    case (1 i r)
    then show ?thesis
      using priced_record [OF pr wfs, of r e fname i] by simp
  qed
  with stored len have first: "\<exists>new. ecommerce_data store' = ecommerce_data store @ new \<and>
           length new = length (rows (fst (clean_dataframe df))) \<and>
           (\<forall>d\<in>set new. \<exists>qty price.
              map_of d ''quantity'' = Some qty \<and> map_of d ''unit_price'' = Some price \<and>
              map_of d ''total_price'' = Some (cell_mul qty price))"
    by blast
  show ?thesis
    using first total_price_notin_normalized [of "columns df"] convert_types_keeps_total_price [of _ e]
    by blast
qed

text \<open>
  Two rows stored from the orders file, with the prices 6 and 5; and a frame that comes
  with a \<^verbatim>\<open>total_price\<close> of 7 for 3 times 2 keeps the 7.
\<close>

theorem total_price_is_product_witness:
  "wf_dataframe orders_df \<and>
   read_csv (demo_env orders_csv orders_df) orders_csv = Inr orders_df \<and>
   set required_columns \<subseteq> set (map (rename_column \<circ> normalize_name) (columns orders_df)) \<and>
   count_list (map (rename_column \<circ> normalize_name) (columns orders_df)) ''quantity'' = 1 \<and>
   count_list (map (rename_column \<circ> normalize_name) (columns orders_df)) ''unit_price'' = 1 \<and>
   map (\<lambda>d. (map_of d ''quantity'', map_of d ''unit_price'', map_of d ''total_price''))
     (ecommerce_data (snd (upload_file (demo_env orders_csv orders_df) ''orders.csv''
        orders_csv empty_db))) =
     [(Some (Num 3), Some (Num 2), Some (Num 6)), (Some (Num 1), Some (Num 5), Some (Num 5))] \<and>
   (\<exists>new. ecommerce_data (snd (upload_file (demo_env orders_csv orders_df) ''orders.csv''
               orders_csv empty_db)) = ecommerce_data empty_db @ new \<and>
      length new = length (rows (fst (clean_dataframe orders_df))) \<and>
      (\<forall>d\<in>set new. \<exists>qty price.
         map_of d ''quantity'' = Some qty \<and> map_of d ''unit_price'' = Some price \<and>
         map_of d ''total_price'' = Some (cell_mul qty price))) \<and>
   ''total_price'' \<in> set (columns supplied_total_df) \<and>
   columns (fst (convert_types (demo_env orders_csv orders_df) supplied_total_df)) =
     columns supplied_total_df \<and>
   rows (fst (convert_types (demo_env orders_csv orders_df) supplied_total_df)) =
     [[Num 3, Num 2, Num 7]]"
proof -
  let ?e = "demo_env orders_csv orders_df"
  let ?u = "upload_file ?e ''orders.csv'' orders_csv empty_db"
  let ?r = "\<lparr>message = ''File processed successfully'',
          response_records_processed = 2, response_records_failed = 1,
          response_errors = [''Removed 1 duplicate records''],
          response_processing_time = (0::int)\<rparr>"
  have "fst ?u = Inr ?r"
    by code_simp
  then have up: "?u = (Inr ?r, snd ?u)"
    by (simp add: prod_eq_iff)
  have rd: "read_csv ?e orders_csv = Inr orders_df"
    by (simp add: demo_env_def)
  have wf: "wf_dataframe orders_df"
    by (simp add: wf_dataframe_def orders_df_def)
  have req: "set required_columns \<subseteq> set (map (rename_column \<circ> normalize_name) (columns orders_df))"
    by code_simp
  have q: "count_list (map (rename_column \<circ> normalize_name) (columns orders_df)) ''quantity'' = 1"
    by code_simp
  have u: "count_list (map (rename_column \<circ> normalize_name) (columns orders_df)) ''unit_price'' = 1"
    by code_simp
  have docs: "map (\<lambda>d. (map_of d ''quantity'', map_of d ''unit_price'', map_of d ''total_price''))
     (ecommerce_data (snd ?u)) =
     [(Some (Num 3), Some (Num 2), Some (Num 6)), (Some (Num 1), Some (Num 5), Some (Num 5))]"
    by code_simp
  have tp: "''total_price'' \<in> set (columns supplied_total_df)"
    by (simp add: supplied_total_df_def)
  have kept: "columns (fst (convert_types ?e supplied_total_df)) = columns supplied_total_df"
    "rows (fst (convert_types ?e supplied_total_df)) = [[Num 3, Num 2, Num 7]]"
    by code_simp+
  show ?thesis
    using total_price_is_product [OF up rd wf req q u] rd wf req q u docs tp kept by blast
qed

text \<open>
  Claim C4 as stated fails: the source has no \<^verbatim>\<open>total_price\<close> column, but two of its
  columns normalise to \<^verbatim>\<open>quantity\<close>; the numeric conversion raises, the exception is
  caught and reported, and the record is stored without a \<^verbatim>\<open>total_price\<close>.
\<close>

theorem duplicate_quantity_column_no_total_price:
  "fst (upload_file (demo_env two_quantities_csv two_quantities_df) ''orders.csv''
          two_quantities_csv empty_db) =
     Inr \<lparr>message = ''File processed successfully'',
          response_records_processed = 1, response_records_failed = 0,
          response_errors =
            [''Error converting data types: arg must be a list, tuple, 1-d array, or Series''],
          response_processing_time = 0\<rparr> \<and>
   ecommerce_data (snd (upload_file (demo_env two_quantities_csv two_quantities_df) ''orders.csv''
          two_quantities_csv empty_db)) =
     [[(''order_id'', Str ''A1''), (''product_id'', Str ''P1''), (''quantity'', Num 3),
       (''unit_price'', Num 2), (''_id'', Str ''id-0''),
       (''source_file'', Str ''orders.csv''),
       (''processed_at'', Dt ''2024-01-01T00:00:00+00:00'')]] \<and>
   map_of (hd (ecommerce_data (snd (upload_file (demo_env two_quantities_csv two_quantities_df)
          ''orders.csv'' two_quantities_csv empty_db)))) ''total_price'' = None"
  by code_simp

section \<open>Properties of the analytics overview\<close>

text \<open>
  Claim C7. With no order-line record in the store, the overview is the empty-state
  payload with \<^verbatim>\<open>total_records\<close> 0, whatever the environment (no pipeline is run, so
  nothing of it can fail); and after \<^verbatim>\<open>clear_all_data\<close> the overview is that same payload.
\<close>

theorem overview_empty_state:
  "(ecommerce_data store = [] \<longrightarrow>
      get_analytics_overview e store =
        Inr (EmptyState 0 ''No data available. Please upload a CSV file first.'')) \<and>
   get_analytics_overview e (snd (clear_all_data store)) =
     Inr (EmptyState 0 ''No data available. Please upload a CSV file first.'')"
  by (simp add: get_analytics_overview_def clear_all_data_def)

text \<open>
  The empty database, and the database that held the seven sales records before it was
  cleared.
\<close>

theorem overview_empty_state_witness:
  "ecommerce_data empty_db = [] \<and>
   get_analytics_overview (demo_env sales_csv sales_df) empty_db =
     Inr (EmptyState 0 ''No data available. Please upload a CSV file first.'') \<and>
   length (ecommerce_data sales_db) = 7 \<and>
   get_analytics_overview (demo_env sales_csv sales_df) (snd (clear_all_data sales_db)) =
     Inr (EmptyState 0 ''No data available. Please upload a CSV file first.'')"
proof -
  have a: "ecommerce_data empty_db = []"
    by (simp add: empty_db_def)
  have b: "length (ecommerce_data sales_db) = 7"
    by code_simp
  show ?thesis
    using a b overview_empty_state [of empty_db "demo_env sales_csv sales_df"]
      overview_empty_state [of sales_db "demo_env sales_csv sales_df"]
    by blast
qed

text \<open>
  Claim C8. When the overview of a store with records is returned, its top-products and
  top-customers lists have at most 5 entries each, in descending order of their revenue,
  which is the sum of \<^verbatim>\<open>total_price\<close> over the records of the product or customer; the
  daily-revenue list has at most 30 entries, in strictly ascending order of their date
  keys. A date key is null or the \<^verbatim>\<open>%Y-%m-%d\<close> text of a calendar day, and on such texts
  the order of the keys is the order of the calendar days.
\<close>

theorem overview_lists_bounded_and_sorted:
  assumes "get_analytics_overview e store = Inr (Overview s)"
  shows "length (top_products s) \<le> 5 \<and>
     sorted_wrt (\<lambda>a b. rank (product_total_revenue b) \<le> rank (product_total_revenue a))
       (top_products s) \<and>
     (\<forall>p\<in>set (top_products s).
        product_total_revenue p = mongo_sum ''total_price''
          (filter (\<lambda>d. product_key d = (Some (product_id p), Some (product_name p)))
             (ecommerce_data store))) \<and>
     length (top_customers s) \<le> 5 \<and>
     sorted_wrt (\<lambda>a b. rank (total_spent b) \<le> rank (total_spent a)) (top_customers s) \<and>
     (\<forall>c\<in>set (top_customers s).
        total_spent c = mongo_sum ''total_price''
          (filter (\<lambda>d. customer_key d = customer_id c) (ecommerce_data store))) \<and>
     length (daily_revenue s) \<le> 30 \<and>
     sorted_wrt (\<lambda>a b. date a < date b) (daily_revenue s) \<and>
     (\<forall>x\<in>set (daily_revenue s).
        date x = None \<or> (\<exists>ymd. valid_day ymd \<and> date x = Some (date_to_string ymd))) \<and>
     (\<forall>a b. valid_day a \<and> valid_day b \<longrightarrow>
        (date_to_string a < date_to_string b) = (a < b))"
proof -
  let ?ds = "ecommerce_data store"
  from assms obtain daily items where
    daily: "daily_revenue_pipeline e ?ds = Inr daily"
    and items: "top_product_items (top_products_pipeline ?ds) = Inr items"
    and s: "top_products s = items" "top_customers s = top_customers_pipeline ?ds"
      "daily_revenue s = daily"
    by (auto simp: get_analytics_overview_def Let_def split: if_splits sum.splits)
  have p1: "length (top_products s) \<le> 5"
    using length_top_product_items [OF items] top_products_pipeline_props(1) [of ?ds]
    by (simp add: s)
  have "sorted_wrt (\<lambda>a b. b \<le> a) (map (\<lambda>g. rank (group_total_revenue g)) (top_products_pipeline ?ds))"
    using top_products_pipeline_props(2) [of ?ds] by (simp add: sorted_wrt_map)
  moreover have "map (\<lambda>g. rank (group_total_revenue g)) (top_products_pipeline ?ds) =
      map (\<lambda>p. rank (product_total_revenue p)) items"
    using top_product_items_map [OF items, THEN conjunct1]
    by (metis (no_types, lifting) map_map comp_def map_eq_conv)
  ultimately have p2: "sorted_wrt (\<lambda>a b. rank (product_total_revenue b) \<le> rank (product_total_revenue a))
       (top_products s)"
    by (simp add: s sorted_wrt_map)
  have p3: "product_total_revenue p = mongo_sum ''total_price''
          (filter (\<lambda>d. product_key d = (Some (product_id p), Some (product_name p))) ?ds)"
    if "p \<in> set (top_products s)" for p
  proof -
    from top_product_items_members [OF items] that obtain g
      where "g \<in> set (top_products_pipeline ?ds)"
        and "group_product_id g = Some (product_id p)"
        and "group_product_name g = Some (product_name p)"
        and "group_total_revenue g = product_total_revenue p"
      by (auto simp: s)
    then show ?thesis
      using top_products_pipeline_props(3) [where g = g and ds = ?ds] by simp
  qed
  have c: "length (top_customers s) \<le> 5"
    "sorted_wrt (\<lambda>a b. rank (total_spent b) \<le> rank (total_spent a)) (top_customers s)"
    "\<forall>c\<in>set (top_customers s).
        total_spent c = mongo_sum ''total_price'' (filter (\<lambda>d. customer_key d = customer_id c) ?ds)"
    using top_customers_pipeline_props(1,2) [of ?ds]
      top_customers_pipeline_props(3) [where ds = ?ds]
    by (simp_all add: s)
  have d: "length (daily_revenue s) \<le> 30"
    "sorted_wrt (\<lambda>a b. date a < date b) (daily_revenue s)"
    "\<forall>x\<in>set (daily_revenue s).
        date x = None \<or> (\<exists>ymd. valid_day ymd \<and> date x = Some (date_to_string ymd))"
    using daily_revenue_pipeline_props [OF daily] by (simp_all add: s)
  show ?thesis
    using p1 p2 p3 c d date_to_string_less by blast
qed

text \<open>
  The overview of the seven sales records: six products, of which five are listed, by
  revenue 9, 8, 8, 6, 5; six customers, of which five are listed; four days in order.
\<close>

theorem overview_lists_bounded_and_sorted_witness:
  "\<exists>s. get_analytics_overview (demo_env sales_csv sales_df) sales_db = Inr (Overview s) \<and>
      map product_id (top_products s) = [Str ''P5'', Str ''P3'', Str ''P1'', Str ''P6'', Str ''P2''] \<and>
      map product_total_revenue (top_products s) = [Num 9, Num 8, Num 8, Num 6, Num 5] \<and>
      map customer_id (top_customers s) = [Str ''C1'', Str ''C4'', Str ''C5'', Str ''C2'', Str ''C6''] \<and>
      map total_spent (top_customers s) = [Num 14, Num 9, Num 6, Num 5, Num 2] \<and>
      map date (daily_revenue s) =
        [Some ''2024-03-01'', Some ''2024-03-02'', Some ''2024-03-03'', Some ''2024-03-04''] \<and>
      length (top_products s) \<le> 5 \<and> length (top_customers s) \<le> 5 \<and>
      length (daily_revenue s) \<le> 30 \<and>
      sorted_wrt (\<lambda>a b. rank (product_total_revenue b) \<le> rank (product_total_revenue a))
        (top_products s) \<and>
      sorted_wrt (\<lambda>a b. rank (total_spent b) \<le> rank (total_spent a)) (top_customers s) \<and>
      sorted_wrt (\<lambda>a b. date a < date b) (daily_revenue s)"
proof -
  let ?o = "get_analytics_overview (demo_env sales_csv sales_df) sales_db"
  have ev: "(case ?o of
      Inr (Overview s) \<Rightarrow>
        map product_id (top_products s) = [Str ''P5'', Str ''P3'', Str ''P1'', Str ''P6'', Str ''P2''] \<and>
        map product_total_revenue (top_products s) = [Num 9, Num 8, Num 8, Num 6, Num 5] \<and>
        map customer_id (top_customers s) = [Str ''C1'', Str ''C4'', Str ''C5'', Str ''C2'', Str ''C6''] \<and>
        map total_spent (top_customers s) = [Num 14, Num 9, Num 6, Num 5, Num 2] \<and>
        map date (daily_revenue s) =
          [Some ''2024-03-01'', Some ''2024-03-02'', Some ''2024-03-03'', Some ''2024-03-04'']
    | _ \<Rightarrow> False)"
    by code_simp
  then obtain s where s: "?o = Inr (Overview s)"
    by (auto split: sum.splits overview.splits)
  show ?thesis
    using overview_lists_bounded_and_sorted [OF s] ev s
    by (intro exI [of _ s]) simp
qed

end
